theory Spec2Isabelle
  imports Main
begin

section \<open>Python values shared by both programs\<close>

text \<open>
  An exception is represented by the text that \<^verbatim>\<open>str(e)\<close> yields; that text is all
  the two programs ever read from a caught exception.
\<close>

datatype exn = Exception string

fun str :: "exn \<Rightarrow> string" where
  "str (Exception m) = m"

text \<open>
  Values produced by \<^verbatim>\<open>json.loads\<close>. A dict is an association list in insertion
  order whose keys are distinct; floats are left out.
\<close>

datatype json =
    JNull
  | JBool bool
  | JInt int
  | JStr string
  | JArr "json list"
  | JObj "(string \<times> json) list"

text \<open>\<^verbatim>\<open>d.get(k)\<close> and \<^verbatim>\<open>d.get(k, default)\<close> on a dict.\<close>

definition dict_get :: "(string \<times> json) list \<Rightarrow> string \<Rightarrow> json" where
  "dict_get d k = (case map_of d k of None \<Rightarrow> JNull | Some v \<Rightarrow> v)"

definition dict_get_default :: "(string \<times> json) list \<Rightarrow> string \<Rightarrow> json \<Rightarrow> json" where
  "dict_get_default d k dflt = (case map_of d k of None \<Rightarrow> dflt | Some v \<Rightarrow> v)"

section \<open>client\_agent.py: registry and message dispatch\<close>

text \<open>
  One entry of \<^verbatim>\<open>TOOLS_REGISTRY\<close>. The handler receives the keyword arguments
  and either raises or returns a value.
\<close>

record tool =
  func :: "(string \<times> json) list \<Rightarrow> exn + json"
  blocking :: bool
  schema :: json

type_synonym registry = "(string \<times> tool) list"

text \<open>
  The agent as \<^verbatim>\<open>handle_message\<close> sees it: the module-level registry and the
  socket, the latter represented by the payloads handed to \<^verbatim>\<open>ws.send\<close> so far
  (each payload is the dict given to \<^verbatim>\<open>json.dumps\<close>).
\<close>

record agent =
  TOOLS_REGISTRY :: registry
  sent :: "json list"

definition ws_send :: "agent \<Rightarrow> json \<Rightarrow> agent" where
  "ws_send a payload = a\<lparr>sent := sent a @ [payload]\<rparr>"

text \<open>
  \<^verbatim>\<open>TOOLS_REGISTRY.get(name)\<close>: a string is looked up, any other hashable value is
  no key of the registry, a list or dict is unhashable and raises.
\<close>

definition registry_get :: "registry \<Rightarrow> json \<Rightarrow> exn + tool option" where
  "registry_get reg name =
     (case name of
        JStr s \<Rightarrow> Inr (map_of reg s)
      | JArr _ \<Rightarrow> Inl (Exception ''unhashable type: list'')
      | JObj _ \<Rightarrow> Inl (Exception ''unhashable type: dict'')
      | _ \<Rightarrow> Inr None)"

text \<open>
  \<^verbatim>\<open>tool["func"](**args)\<close>, directly or through \<^verbatim>\<open>asyncio.to_thread\<close>:
  anything but a mapping after \<^verbatim>\<open>**\<close> raises.
\<close>

definition call_func :: "tool \<Rightarrow> json \<Rightarrow> exn + json" where
  "call_func t args =
     (case args of
        JObj kwargs \<Rightarrow> (if blocking t then func t kwargs else func t kwargs)
      | _ \<Rightarrow> Inl (Exception ''argument after ** must be a mapping''))"

definition rpc_error :: "int \<Rightarrow> string \<Rightarrow> json" where
  "rpc_error code msg = JObj [(''code'', JInt code), (''message'', JStr msg)]"

text \<open>
  The \<^verbatim>\<open>tools/call\<close> branch: the fields added to \<^verbatim>\<open>response\<close>, or the
  exception that leaves \<^verbatim>\<open>handle_message\<close>. \<open>dumps\<close> stands for
  \<^verbatim>\<open>json.dumps(_, default=str)\<close>.
\<close>

definition tools_call :: "(json \<Rightarrow> string) \<Rightarrow> registry \<Rightarrow> json \<Rightarrow> exn + (string \<times> json) list" where
  "tools_call dumps reg params =
     (case params of
        JObj p \<Rightarrow>
          (let name = dict_get p ''name'';
               args = dict_get_default p ''arguments'' (JObj [])
           in case registry_get reg name of
                Inl e \<Rightarrow> Inl e
              | Inr (Some t) \<Rightarrow>
                  (case call_func t args of
                     Inr result \<Rightarrow>
                       Inr [(''result'',
                             JObj [(''content'',
                                    JArr [JObj [(''type'', JStr ''text''),
                                                (''text'', JStr (dumps result))]])])]
                   | Inl e \<Rightarrow> Inr [(''error'', rpc_error (- 32000) (str e))])
              | Inr None \<Rightarrow> Inr [(''error'', rpc_error (- 32601) ''Tool not found'')])
      | _ \<Rightarrow> Inl (Exception ''object has no attribute get''))"

text \<open>
  \<^verbatim>\<open>handle_message(ws, data)\<close>. The result is the agent afterwards, or the
  exception that propagates to \<^verbatim>\<open>agent_loop\<close>.
\<close>

definition handle_message :: "(json \<Rightarrow> string) \<Rightarrow> agent \<Rightarrow> json \<Rightarrow> exn + agent" where
  "handle_message dumps a data =
     (case data of
        JObj d \<Rightarrow>
          (let msg_id = dict_get d ''id'';
               method = dict_get d ''method'';
               params = dict_get_default d ''params'' (JObj [])
           in if method = JStr ''ping'' \<or> dict_get d ''result'' = JStr ''pong'' then Inr a
              else
                (let response = [(''jsonrpc'', JStr ''2.0''), (''id'', msg_id)]
                 in if method = JStr ''tools/list'' then
                      Inr (ws_send a (JObj (response @
                        [(''result'', JObj [(''tools'', JArr (map (\<lambda>(n, t). schema t) (TOOLS_REGISTRY a)))])])))
                    else if method = JStr ''tools/call'' then
                      (case tools_call dumps (TOOLS_REGISTRY a) params of
                         Inl e \<Rightarrow> Inl e
                       | Inr added \<Rightarrow> Inr (ws_send a (JObj (response @ added))))
                    else Inr (ws_send a (JObj response))))
      | _ \<Rightarrow> Inl (Exception ''object has no attribute get''))"

text \<open>
  A registry entry used to exercise both failure channels: a handler with one required
  parameter that raises when called without arguments (as Python does for a missing
  positional argument) and otherwise returns the in-band error object every Outlook tool
  returns on a host without \<^verbatim>\<open>pythoncom\<close>.
\<close>

definition sample_tool :: tool where
  "sample_tool =
     \<lparr>func = (\<lambda>kw. if kw = [] then Inl (Exception ''missing argument'')
                    else Inr (JObj [(''error'', JStr ''Windows/Outlook required'')])),
      blocking = True, schema = JNull\<rparr>"

section \<open>client\_agent.py: the reconnect loop\<close>

text \<open>
  One pass of the \<^verbatim>\<open>while True\<close> body of \<^verbatim>\<open>agent_loop\<close> is determined by how
  it ends: \<^verbatim>\<open>websockets.connect\<close> raises; the message iterator raises
  \<^verbatim>\<open>ConnectionClosed\<close> (caught by the inner handler); the iterator finishes;
  \<^verbatim>\<open>json.loads\<close> or \<^verbatim>\<open>handle_message\<close> raises some other \<^verbatim>\<open>Exception\<close>
  (caught by the outer handler); or a \<^verbatim>\<open>BaseException\<close> such as
  \<^verbatim>\<open>KeyboardInterrupt\<close> passes both handlers (process shutdown).
\<close>

datatype session_end =
    Connect_failed exn
  | Connection_closed
  | Stream_finished
  | Session_raised exn
  | Interrupted

datatype action = Connect | Sleep nat

datatype loop_status = Running | Stopped

text \<open>
  The loop run against a finite script of session endings: the connection attempts and
  sleeps it performs, and whether it is still looping when the script is used up.
\<close>

fun agent_loop :: "session_end list \<Rightarrow> action list \<times> loop_status" where
  "agent_loop [] = ([], Running)"
| "agent_loop (Connect_failed e # rest) =
     (case agent_loop rest of (acts, st) \<Rightarrow> (Connect # Sleep 5 # acts, st))"
| "agent_loop (Connection_closed # rest) =
     (case agent_loop rest of (acts, st) \<Rightarrow> (Connect # acts, st))"
| "agent_loop (Stream_finished # rest) =
     (case agent_loop rest of (acts, st) \<Rightarrow> (Connect # acts, st))"
| "agent_loop (Session_raised e # rest) =
     (case agent_loop rest of (acts, st) \<Rightarrow> (Connect # Sleep 5 # acts, st))"
| "agent_loop (Interrupted # rest) = ([Connect], Stopped)"

fun backs_off :: "session_end \<Rightarrow> bool" where
  "backs_off (Connect_failed e) = True"
| "backs_off (Session_raised e) = True"
| "backs_off _ = False"

section \<open>client\_agent.py: searching the inbox\<close>

record mail_item =
  EntryID :: string
  Subject :: string
  SenderName :: string
  ReceivedTime :: string
  Body :: string
  Attachments_Count :: int

text \<open>An item of the collection: a mail item, or an object whose properties cannot be read.\<close>

datatype com_item = MailItem mail_item | Unreadable

definition parse_email_summary :: "com_item \<Rightarrow> json" where
  "parse_email_summary msg =
     (case msg of
        MailItem m \<Rightarrow>
          JObj [(''id'', JStr (EntryID m)),
                (''subject'', JStr (Subject m)),
                (''sender'', JStr (SenderName m)),
                (''received'', JStr (ReceivedTime m)),
                (''preview'',
                 JStr (map (\<lambda>c. if c = CHR 0x0D \<or> c = CHR 0x0A then CHR '' '' else c)
                         (take 100 (Body m)) @ ''...'')),
                (''has_attachments'', JBool (Attachments_Count m > 0))]
      | Unreadable \<Rightarrow> JObj [(''subject'', JStr ''Error reading email item'')])"

text \<open>
  The Outlook automation layer: whether \<^verbatim>\<open>pythoncom\<close> was imported, and what
  dispatching Outlook, restricting the inbox by a filter and sorting gives: an exception,
  or the collection, where reading \<^verbatim>\<open>items[i]\<close> may itself raise.
\<close>

record outlook =
  pythoncom :: bool
  Restrict :: "string \<Rightarrow> exn + (exn + com_item) list"

definition filter_str :: "string \<Rightarrow> string" where
  "filter_str query =
     ''@SQL='' @ [CHR 0x22] @ ''urn:schemas:httpmail:subject'' @ [CHR 0x22] @ '' LIKE ''
       @ [CHR 0x27] @ ''%'' @ query @ ''%'' @ [CHR 0x27] @ '' OR ''
       @ [CHR 0x22] @ ''urn:schemas:httpmail:textdescription'' @ [CHR 0x22] @ '' LIKE ''
       @ [CHR 0x27] @ ''%'' @ query @ ''%'' @ [CHR 0x27]"

text \<open>\<^verbatim>\<open>range(n)\<close> for a Python int: empty when \<open>n\<close> is not positive.\<close>

definition py_range :: "int \<Rightarrow> nat list" where
  "py_range n = [0 ..< nat n]"

fun search_loop :: "(exn + com_item) list \<Rightarrow> nat list \<Rightarrow> json list \<Rightarrow> exn + json list" where
  "search_loop items [] results = Inr results"
| "search_loop items (i # rest) results =
     (if i \<ge> length items then Inr results
      else (case items ! i of
              Inl e \<Rightarrow> Inl e
            | Inr msg \<Rightarrow> search_loop items rest (results @ [parse_email_summary msg])))"

definition tool_search_emails :: "outlook \<Rightarrow> string \<Rightarrow> int \<Rightarrow> json" where
  "tool_search_emails ol query count =
     (if \<not> pythoncom ol then JObj [(''error'', JStr ''Windows/Outlook required'')]
      else (case Restrict ol (filter_str query) of
              Inl e \<Rightarrow> JObj [(''error'', JStr (str e))]
            | Inr items \<Rightarrow>
                (case search_loop items (py_range (min count 20)) [] of
                   Inl e \<Rightarrow> JObj [(''error'', JStr (str e))]
                 | Inr results \<Rightarrow> JArr results)))"

section \<open>backend/server.py: streamed deltas and accumulated tool calls\<close>

text \<open>
  A chunk of the streamed completion, as far as the orchestrator reads it. Every field
  of the client library's delta objects may be \<^verbatim>\<open>None\<close>. Each \<open>char\<close> of a
  string stands for one character as \<^verbatim>\<open>len\<close> counts them.
\<close>

record function_delta =
  fd_name :: "string option"
  fd_arguments :: "string option"

record tool_call_delta =
  tcd_index :: "int option"
  tcd_id :: "string option"
  tcd_function :: "function_delta option"

record delta =
  delta_content :: "string option"
  delta_tool_calls :: "tool_call_delta list option"

record chunk =
  choices :: "delta list"

text \<open>Truthiness of an optional string or list, and the value read when it is truthy.\<close>

fun truthy :: "'a list option \<Rightarrow> bool" where
  "truthy None = False"
| "truthy (Some xs) = (xs \<noteq> [])"

fun value_of :: "'a list option \<Rightarrow> 'a list" where
  "value_of None = []"
| "value_of (Some xs) = xs"

text \<open>An entry of the \<^verbatim>\<open>tool_calls\<close> array that the orchestrator builds.\<close>

record function_call =
  fn_name :: string
  fn_arguments :: string

record tool_call =
  tc_id :: string
  tc_type :: string
  tc_function :: function_call

definition placeholder :: tool_call where
  "placeholder =
     \<lparr>tc_id = '''', tc_type = ''function'',
      tc_function = \<lparr>fn_name = '''', fn_arguments = ''''\<rparr>\<rparr>"

text \<open>\<^verbatim>\<open>while len(tool_calls) <= tc.index: tool_calls.append({...})\<close>\<close>

function grow :: "tool_call list \<Rightarrow> int \<Rightarrow> tool_call list" where
  "grow tool_calls i =
     (if int (length tool_calls) \<le> i then grow (tool_calls @ [placeholder]) i else tool_calls)"
  by pat_completeness auto
termination
  by (relation "measure (\<lambda>(tool_calls, i). nat (i + 1 - int (length tool_calls)))") auto

declare grow.simps [simp del]

text \<open>
  \<^verbatim>\<open>xs[i] = f(xs[i])\<close> with Python's indexing: a negative index counts from the end,
  an index outside the list raises \<^verbatim>\<open>IndexError\<close>.
\<close>

definition set_item :: "'a list \<Rightarrow> int \<Rightarrow> ('a \<Rightarrow> 'a) \<Rightarrow> exn + 'a list" where
  "set_item xs i f =
     (let n = int (length xs); j = (if i < 0 then n + i else i)
      in if 0 \<le> j \<and> j < n then Inr (xs[nat j := f (xs ! nat j)])
         else Inl (Exception ''list index out of range''))"

definition put_id :: "string \<Rightarrow> tool_call \<Rightarrow> tool_call" where
  "put_id v t = t\<lparr>tc_id := v\<rparr>"

definition put_name :: "string \<Rightarrow> tool_call \<Rightarrow> tool_call" where
  "put_name v t = t\<lparr>tc_function := (tc_function t)\<lparr>fn_name := v\<rparr>\<rparr>"

definition add_arguments :: "string \<Rightarrow> tool_call \<Rightarrow> tool_call" where
  "add_arguments v t =
     t\<lparr>tc_function := (tc_function t)\<lparr>fn_arguments := fn_arguments (tc_function t) @ v\<rparr>\<rparr>"

text \<open>
  The body of \<^verbatim>\<open>for tc in delta.tool_calls\<close>: a fragment without index is skipped;
  otherwise the array is grown and the id, the name and the arguments are merged, in
  this order. Reading \<^verbatim>\<open>tc.function.name\<close> raises when \<^verbatim>\<open>tc.function\<close> is
  \<^verbatim>\<open>None\<close>.
\<close>

definition merge_fragment :: "tool_call list \<Rightarrow> tool_call_delta \<Rightarrow> exn + tool_call list" where
  "merge_fragment tool_calls tc =
     (case tcd_index tc of
        None \<Rightarrow> Inr tool_calls
      | Some i \<Rightarrow>
          (case (if truthy (tcd_id tc)
                 then set_item (grow tool_calls i) i (put_id (value_of (tcd_id tc)))
                 else Inr (grow tool_calls i)) of
             Inl e \<Rightarrow> Inl e
           | Inr tcs1 \<Rightarrow>
               (case tcd_function tc of
                  None \<Rightarrow> Inl (Exception ''NoneType object has no attribute name'')
                | Some f \<Rightarrow>
                    (case (if truthy (fd_name f)
                           then set_item tcs1 i (put_name (value_of (fd_name f)))
                           else Inr tcs1) of
                       Inl e \<Rightarrow> Inl e
                     | Inr tcs2 \<Rightarrow>
                         (if truthy (fd_arguments f)
                          then set_item tcs2 i (add_arguments (value_of (fd_arguments f)))
                          else Inr tcs2)))))"

fun merge_fragments :: "tool_call list \<Rightarrow> tool_call_delta list \<Rightarrow> exn + tool_call list" where
  "merge_fragments tool_calls [] = Inr tool_calls"
| "merge_fragments tool_calls (tc # rest) =
     (case merge_fragment tool_calls tc of
        Inl e \<Rightarrow> Inl e
      | Inr tool_calls' \<Rightarrow> merge_fragments tool_calls' rest)"

section \<open>backend/server.py: the first streaming round\<close>

text \<open>
  The events the generator yields. Each is sent as \<^verbatim>\<open>data: <payload>\n\n\<close>: a text
  delta, a tool start with the tool's name and description, a tool result, an error
  with its message, a chunk of the second round passed through, and the terminator
  \<^verbatim>\<open>data: [DONE]\<close>.
\<close>

datatype frame =
    Content_frame string
  | Tool_start string string
  | Tool_end string
  | Error_frame string
  | Chunk_frame chunk
  | DONE

record stream_state =
  tool_calls :: "tool_call list"
  text_buffer :: string
  is_tool_mode :: bool

definition initial_state :: stream_state where
  "initial_state = \<lparr>tool_calls = [], text_buffer = '''', is_tool_mode = False\<rparr>"

text \<open>
  The body of \<^verbatim>\<open>for chunk in stream\<close>: part A merges tool-call fragments and may
  raise, part B buffers or flushes text and yields at most one frame.
\<close>

definition process_chunk :: "stream_state \<Rightarrow> chunk \<Rightarrow> exn + (frame list \<times> stream_state)" where
  "process_chunk st c =
     (case choices c of
        [] \<Rightarrow> Inl (Exception ''list index out of range'')
      | d # _ \<Rightarrow>
          (case (if truthy (delta_tool_calls d)
                 then (let st1 = (if \<not> is_tool_mode st
                                  then st\<lparr>is_tool_mode := True, text_buffer := ''''\<rparr>
                                  else st)
                       in case merge_fragments (tool_calls st1) (value_of (delta_tool_calls d)) of
                            Inl e \<Rightarrow> Inl e
                          | Inr tcs \<Rightarrow> Inr (st1\<lparr>tool_calls := tcs\<rparr>))
                 else Inr st) of
             Inl e \<Rightarrow> Inl e
           | Inr st2 \<Rightarrow>
               (if truthy (delta_content d)
                then (if is_tool_mode st2 then Inr ([], st2)
                      else (let buf = text_buffer st2 @ value_of (delta_content d)
                            in if length buf > 60
                               then Inr ([Content_frame buf], st2\<lparr>text_buffer := ''''\<rparr>)
                               else Inr ([], st2\<lparr>text_buffer := buf\<rparr>)))
                else Inr ([], st2))))"

text \<open>The loop over the chunks: the frames yielded, and the final state or the exception.\<close>

fun run_stream :: "stream_state \<Rightarrow> chunk list \<Rightarrow> frame list \<times> (exn + stream_state)" where
  "run_stream st [] = ([], Inr st)"
| "run_stream st (c # cs) =
     (case process_chunk st c of
        Inl e \<Rightarrow> ([], Inl e)
      | Inr (fs, st') \<Rightarrow> (case run_stream st' cs of (gs, r) \<Rightarrow> (fs @ gs, r)))"

section \<open>backend/server.py: tool execution and the generator\<close>

text \<open>A message of the request, and an entry of the history list built from it.\<close>

record request_message =
  role :: string
  content :: "string option"
  tool_call_id :: "string option"

record chat_request =
  model :: string
  messages :: "request_message list"

record history_message =
  h_role :: string
  h_content :: "string option"
  h_tool_call_id :: "string option"
  h_tool_calls :: "tool_call list option"

definition to_history :: "request_message \<Rightarrow> history_message" where
  "to_history m =
     \<lparr>h_role = role m, h_content = content m, h_tool_call_id = tool_call_id m,
      h_tool_calls = None\<rparr>"

definition system_instruction :: string where
  "system_instruction =
     ''You are a helpful Dell Tech assistant. You have access to tools. '' @
     ''IMPORTANT: When you need to use a tool, use it DIRECTLY immediately. '' @
     ''Do NOT output conversational filler like 'Let me check that' or 'I will look for you' before calling the tool. '' @
     ''Just call the function.''"

text \<open>
  Inserting or extending the system prompt; \<^verbatim>\<open>+=\<close> on a system message whose
  content is \<^verbatim>\<open>None\<close> raises \<^verbatim>\<open>TypeError\<close>.
\<close>

definition add_system_instruction :: "history_message list \<Rightarrow> exn + history_message list" where
  "add_system_instruction msgs =
     (case msgs of
        [] \<Rightarrow> Inr []
      | m # rest \<Rightarrow>
          (if h_role m \<noteq> ''system''
           then Inr (\<lparr>h_role = ''system'', h_content = Some system_instruction,
                      h_tool_call_id = None, h_tool_calls = None\<rparr> # m # rest)
           else (case h_content m of
                   None \<Rightarrow> Inl (Exception ''unsupported operand type(s) for +=: NoneType and str'')
                 | Some c \<Rightarrow> Inr (m\<lparr>h_content := Some (c @ '' '' @ system_instruction)\<rparr> # rest))))"

text \<open>
  A tool definition as returned by the MCP manager: its \<^verbatim>\<open>function\<close> entry, when
  it has one, with the name and the description (\<open>None\<close> when the key is absent).
\<close>

record tool_function =
  tf_name :: string
  tf_description :: "string option"

record tool_definition =
  td_function :: "tool_function option"

definition tool_descriptions_map :: "tool_definition list \<Rightarrow> (string \<rightharpoonup> string)" where
  "tool_descriptions_map tools =
     foldl (\<lambda>m t. case td_function t of
                     None \<Rightarrow> m
                   | Some f \<Rightarrow> m(tf_name f \<mapsto> value_of (tf_description f)))
       Map.empty tools"

text \<open>
  The collaborators: the OpenAI client constructor, the MCP manager (with its own state
  \<open>'m\<close>), the completion endpoint, which raises or returns a stream (the chunks it
  delivers and the exception, if any, that ends the iteration), and \<^verbatim>\<open>json.loads\<close>.
\<close>

type_synonym model_stream = "chunk list \<times> exn option"

record ('j, 'm) collaborators =
  OpenAI :: "exn option"
  get_all_tools_definitions :: "'m \<Rightarrow> (exn + tool_definition list) \<times> 'm"
  execute_tool :: "'m \<Rightarrow> string \<Rightarrow> 'j \<Rightarrow> (exn + string) \<times> 'm"
  completions_create ::
    "string \<Rightarrow> history_message list \<Rightarrow> tool_definition list option \<Rightarrow> exn + model_stream"
  json_loads :: "string \<Rightarrow> exn + 'j"

definition tool_message :: "string \<Rightarrow> string \<Rightarrow> history_message" where
  "tool_message call_id text =
     \<lparr>h_role = ''tool'', h_content = Some text, h_tool_call_id = Some call_id,
      h_tool_calls = None\<rparr>"

text \<open>
  One pass of \<^verbatim>\<open>for tc in tool_calls\<close>: the frames yielded, the message appended to
  the history and the manager's state afterwards.
\<close>

definition run_tool_call ::
  "('j, 'm) collaborators \<Rightarrow> 'm \<Rightarrow> (string \<rightharpoonup> string) \<Rightarrow> tool_call \<Rightarrow>
     frame list \<times> history_message \<times> 'm" where
  "run_tool_call env m descs tc =
     (let func_name = fn_name (tc_function tc);
          call_id = tc_id tc;
          desc = (case descs func_name of
                    None \<Rightarrow> ''Executing enterprise utility function...''
                  | Some d \<Rightarrow> d);
          start = Tool_start func_name desc
      in case json_loads env (fn_arguments (tc_function tc)) of
           Inl e \<Rightarrow>
             ([start, Error_frame (str e)], tool_message call_id (''Error: '' @ str e), m)
         | Inr args \<Rightarrow>
             (case execute_tool env m func_name args of
                (Inl e, m') \<Rightarrow>
                  ([start, Error_frame (str e)], tool_message call_id (''Error: '' @ str e), m')
              | (Inr result_str, m') \<Rightarrow>
                  ([start, Tool_end result_str], tool_message call_id result_str, m')))"

fun run_tool_calls ::
  "('j, 'm) collaborators \<Rightarrow> 'm \<Rightarrow> (string \<rightharpoonup> string) \<Rightarrow> history_message list \<Rightarrow>
     tool_call list \<Rightarrow> frame list \<times> history_message list \<times> 'm" where
  "run_tool_calls env m descs msgs [] = ([], msgs, m)"
| "run_tool_calls env m descs msgs (tc # rest) =
     (case run_tool_call env m descs tc of
        (fs, msg, m') \<Rightarrow>
          (case run_tool_calls env m' descs (msgs @ [msg]) rest of
             (gs, msgs', m'') \<Rightarrow> (fs @ gs, msgs', m'')))"

text \<open>
  From the end of the first stream to the terminator: the trailing flush, the tool
  round and the second stream, relayed chunk by chunk.
\<close>

definition after_stream ::
  "('j, 'm) collaborators \<Rightarrow> 'm \<Rightarrow> (string \<rightharpoonup> string) \<Rightarrow> string \<Rightarrow> history_message list \<Rightarrow>
     stream_state \<Rightarrow> frame list \<times> (exn + unit)" where
  "after_stream env m descs mdl msgs st =
     (let flush = (if text_buffer st \<noteq> [] \<and> tool_calls st = []
                   then [Content_frame (text_buffer st)] else [])
      in if tool_calls st \<noteq> [] then
           (case run_tool_calls env m descs
                   (msgs @ [\<lparr>h_role = ''assistant'', h_content = None, h_tool_call_id = None,
                              h_tool_calls = Some (tool_calls st)\<rparr>])
                   (tool_calls st) of
              (tfs, msgs', m') \<Rightarrow>
                (case completions_create env mdl msgs' None of
                   Inl e \<Rightarrow> (flush @ tfs, Inl e)
                 | Inr (chunks2, None) \<Rightarrow>
                     (flush @ tfs @ map Chunk_frame chunks2 @ [DONE], Inr ())
                 | Inr (chunks2, Some e) \<Rightarrow>
                     (flush @ tfs @ map Chunk_frame chunks2, Inl e)))
         else (flush @ [DONE], Inr ()))"

text \<open>
  Steps before the first stream is read: the client, the tool definitions, the history
  with the system instruction, and the first completion request.
\<close>

definition open_stream ::
  "('j, 'm) collaborators \<Rightarrow> 'm \<Rightarrow> chat_request \<Rightarrow>
     exn + ('m \<times> (string \<rightharpoonup> string) \<times> history_message list \<times> model_stream)" where
  "open_stream env m request =
     (case OpenAI env of
        Some e \<Rightarrow> Inl e
      | None \<Rightarrow>
          (case get_all_tools_definitions env m of
             (Inl e, m1) \<Rightarrow> Inl e
           | (Inr tools, m1) \<Rightarrow>
               (case add_system_instruction (map to_history (messages request)) of
                  Inl e \<Rightarrow> Inl e
                | Inr msgs \<Rightarrow>
                    (case completions_create env (model request) msgs
                            (if tools = [] then None else Some tools) of
                       Inl e \<Rightarrow> Inl e
                     | Inr stream \<Rightarrow> Inr (m1, tool_descriptions_map tools, msgs, stream)))))"

text \<open>The body of the \<^verbatim>\<open>try\<close> block: the frames yielded, and whether it raised.\<close>

definition generator_body ::
  "('j, 'm) collaborators \<Rightarrow> 'm \<Rightarrow> chat_request \<Rightarrow> frame list \<times> (exn + unit)" where
  "generator_body env m request =
     (case open_stream env m request of
        Inl e \<Rightarrow> ([], Inl e)
      | Inr (m1, descs, msgs, (chunks, ending)) \<Rightarrow>
          (case run_stream initial_state chunks of
             (fs, Inl e) \<Rightarrow> (fs, Inl e)
           | (fs, Inr st) \<Rightarrow>
               (case ending of
                  Some e \<Rightarrow> (fs, Inl e)
                | None \<Rightarrow>
                    (case after_stream env m1 descs (model request) msgs st of
                       (gs, r) \<Rightarrow> (fs @ gs, r)))))"

text \<open>
  \<^verbatim>\<open>smart_stream_generator\<close>: everything the generator yields. The \<^verbatim>\<open>except\<close>
  clause yields one error frame and the generator ends.
\<close>

definition smart_stream_generator ::
  "('j, 'm) collaborators \<Rightarrow> 'm \<Rightarrow> chat_request \<Rightarrow> frame list" where
  "smart_stream_generator env m request =
     (case generator_body env m request of
        (fs, Inl e) \<Rightarrow> fs @ [Error_frame (str e)]
      | (fs, Inr u) \<Rightarrow> fs)"

text \<open>
  Collaborators for running the generator on concrete inputs: no tool definitions, a
  tool execution that ends with \<open>outcome\<close>, a JSON parser that accepts the empty object
  only, and a
  model that answers with \<open>first\<close> and, once a tool result is in the history, with
  \<open>second\<close>.
\<close>

definition scripted ::
  "exn + string \<Rightarrow> model_stream \<Rightarrow> model_stream \<Rightarrow> (json, unit) collaborators" where
  "scripted outcome first second =
     \<lparr>OpenAI = None,
      get_all_tools_definitions = (\<lambda>m. (Inr [], m)),
      execute_tool = (\<lambda>m name args. (outcome, m)),
      completions_create =
        (\<lambda>mdl msgs tools. if list_ex (\<lambda>h. h_role h = ''tool'') msgs then Inr second else Inr first),
      json_loads = (\<lambda>s. if s = ''{}'' then Inr (JObj []) else Inl (Exception ''Expecting value''))\<rparr>"

text \<open>What the claims call a plain-text chunk, and the text a chunk carries.\<close>

definition text_only :: "chunk \<Rightarrow> bool" where
  "text_only c = (case choices c of [] \<Rightarrow> False | d # _ \<Rightarrow> \<not> truthy (delta_tool_calls d))"

definition chunk_text :: "chunk \<Rightarrow> string" where
  "chunk_text c = (case choices c of [] \<Rightarrow> [] | d # _ \<Rightarrow> value_of (delta_content d))"

definition has_tool_calls :: "chunk \<Rightarrow> bool" where
  "has_tool_calls c = (case choices c of [] \<Rightarrow> False | d # _ \<Rightarrow> truthy (delta_tool_calls d))"

definition chunk_fragments :: "chunk \<Rightarrow> tool_call_delta list" where
  "chunk_fragments c = (case choices c of [] \<Rightarrow> [] | d # _ \<Rightarrow> value_of (delta_tool_calls d))"

text \<open>The last non-empty string of a list, or the empty string when there is none.\<close>

definition last_nonempty :: "string list \<Rightarrow> string" where
  "last_nonempty xs = (case filter (\<lambda>s. s \<noteq> []) xs of [] \<Rightarrow> [] | y # ys \<Rightarrow> last (y # ys))"

section \<open>Auxiliary definitions for the orchestrator's properties\<close>

text \<open>
  What a fragment carries for the id, the name and the arguments (empty when the field is
  \<^verbatim>\<open>None\<close>), and the effect of merging it into the slot it addresses.
\<close>

definition fragment_id :: "tool_call_delta \<Rightarrow> string" where
  "fragment_id tc = value_of (tcd_id tc)"

definition fragment_name :: "tool_call_delta \<Rightarrow> string" where
  "fragment_name tc = (case tcd_function tc of None \<Rightarrow> [] | Some f \<Rightarrow> value_of (fd_name f))"

definition fragment_arguments :: "tool_call_delta \<Rightarrow> string" where
  "fragment_arguments tc = (case tcd_function tc of None \<Rightarrow> [] | Some f \<Rightarrow> value_of (fd_arguments f))"

definition absorb :: "tool_call_delta \<Rightarrow> tool_call \<Rightarrow> tool_call" where
  "absorb tc t =
     \<lparr>tc_id = (if fragment_id tc = [] then tc_id t else fragment_id tc),
      tc_type = tc_type t,
      tc_function =
        \<lparr>fn_name = (if fragment_name tc = [] then fn_name (tc_function t) else fragment_name tc),
         fn_arguments = fn_arguments (tc_function t) @ fragment_arguments tc\<rparr>\<rparr>"

text \<open>The text events among the frames.\<close>

fun is_content :: "frame \<Rightarrow> bool" where
  "is_content (Content_frame s) = True"
| "is_content _ = False"

text \<open>Sample chunks, requests and accumulated calls for running the generator.\<close>

definition text_chunk :: "string \<Rightarrow> chunk" where
  "text_chunk s = \<lparr>choices = [\<lparr>delta_content = Some s, delta_tool_calls = None\<rparr>]\<rparr>"

definition tool_chunk :: "tool_call_delta list \<Rightarrow> chunk" where
  "tool_chunk frs = \<lparr>choices = [\<lparr>delta_content = None, delta_tool_calls = Some frs\<rparr>]\<rparr>"

definition fragment :: "int \<Rightarrow> string option \<Rightarrow> string option \<Rightarrow> string option \<Rightarrow> tool_call_delta" where
  "fragment i cid name args =
     \<lparr>tcd_index = Some i, tcd_id = cid,
      tcd_function = Some \<lparr>fd_name = name, fd_arguments = args\<rparr>\<rparr>"

definition user_request :: chat_request where
  "user_request =
     \<lparr>model = ''gpt'',
      messages = [\<lparr>role = ''user'', content = Some ''What is on my calendar today?'',
                   tool_call_id = None\<rparr>]\<rparr>"

definition user_history :: "history_message list" where
  "user_history =
     [\<lparr>h_role = ''system'', h_content = Some system_instruction, h_tool_call_id = None,
       h_tool_calls = None\<rparr>,
      \<lparr>h_role = ''user'', h_content = Some ''What is on my calendar today?'',
       h_tool_call_id = None, h_tool_calls = None\<rparr>]"

definition good_call :: tool_call where
  "good_call = \<lparr>tc_id = ''call_1'', tc_type = ''function'',
                tc_function = \<lparr>fn_name = ''read_calendar'', fn_arguments = ''{}''\<rparr>\<rparr>"

definition bad_call :: tool_call where
  "bad_call = \<lparr>tc_id = ''call_2'', tc_type = ''function'',
               tc_function = \<lparr>fn_name = ''read_calendar'', fn_arguments = ''{''\<rparr>\<rparr>"

section \<open>Properties of message dispatch\<close>

text \<open>
  Claim C9. An envelope whose method is none of \<^verbatim>\<open>ping\<close>, \<^verbatim>\<open>tools/list\<close>,
  \<^verbatim>\<open>tools/call\<close> and whose result field is not \<^verbatim>\<open>pong\<close> is still answered:
  exactly one payload is sent, and it consists of the jsonrpc version and the request's
  correlation id only, with neither a result nor an error field.
\<close>

theorem unknown_method_bare_response:
  assumes "dict_get d ''method'' \<noteq> JStr ''ping''"
    and "dict_get d ''method'' \<noteq> JStr ''tools/list''"
    and "dict_get d ''method'' \<noteq> JStr ''tools/call''"
    and "dict_get d ''result'' \<noteq> JStr ''pong''"
  shows "handle_message dumps a (JObj d) =
           Inr (a\<lparr>sent := sent a @ [JObj [(''jsonrpc'', JStr ''2.0''), (''id'', dict_get d ''id'')]]\<rparr>)"
  using assms by (simp add: handle_message_def ws_send_def Let_def)

theorem unknown_method_bare_response_witness:
  "handle_message (\<lambda>j. '''') \<lparr>TOOLS_REGISTRY = [], sent = []\<rparr>
     (JObj [(''id'', JInt 7), (''method'', JStr ''resources/list'')]) =
   Inr \<lparr>TOOLS_REGISTRY = [], sent = [JObj [(''jsonrpc'', JStr ''2.0''), (''id'', JInt 7)]]\<rparr>"
  using unknown_method_bare_response
    [of "[(''id'', JInt 7), (''method'', JStr ''resources/list'')]" "\<lambda>j. ''''"
        "\<lparr>TOOLS_REGISTRY = [], sent = []\<rparr>"]
  by (simp add: dict_get_def)

text \<open>
  Claim C5, as the claim states it, fails on an envelope that also carries the liveness
  marker: the guard for \<^verbatim>\<open>result == "pong"\<close> returns before any dispatch, and
  nothing is sent.
\<close>

theorem unknown_tool_pong_counterexample:
  "handle_message (\<lambda>j. ''<json>'') \<lparr>TOOLS_REGISTRY = [], sent = []\<rparr>
     (JObj [(''id'', JInt 3), (''method'', JStr ''tools/call''),
            (''params'', JObj [(''name'', JStr ''no_such_tool'')]),
            (''result'', JStr ''pong'')]) =
   Inr \<lparr>TOOLS_REGISTRY = [], sent = []\<rparr>"
  by (simp add: handle_message_def dict_get_def dict_get_default_def)

text \<open>
  Claim C5, amended. A \<^verbatim>\<open>tools/call\<close> envelope whose result field is not
  \<^verbatim>\<open>pong\<close> and whose params object names a tool the registry does not hold is
  answered with exactly one payload, carrying the request's id and an error with code
  -32601; no exception reaches the receive loop, and the registry is the same afterwards.
\<close>

theorem unknown_tool_not_found:
  assumes "dict_get d ''method'' = JStr ''tools/call''"
    and "dict_get d ''result'' \<noteq> JStr ''pong''"
    and "map_of d ''params'' = Some (JObj p)"
    and "dict_get p ''name'' = JStr n"
    and "map_of (TOOLS_REGISTRY a) n = None"
  shows "handle_message dumps a (JObj d) =
           Inr (a\<lparr>sent := sent a @
                  [JObj [(''jsonrpc'', JStr ''2.0''), (''id'', dict_get d ''id''),
                         (''error'', JObj [(''code'', JInt (- 32601)),
                                           (''message'', JStr ''Tool not found'')])]]\<rparr>)"
  using assms
  by (simp add: handle_message_def tools_call_def registry_get_def dict_get_default_def
      ws_send_def rpc_error_def Let_def)

theorem unknown_tool_not_found_witness:
  "handle_message (\<lambda>j. ''<json>'') \<lparr>TOOLS_REGISTRY = [], sent = []\<rparr>
     (JObj [(''id'', JInt 3), (''method'', JStr ''tools/call''),
            (''params'', JObj [(''name'', JStr ''no_such_tool'')])]) =
   Inr \<lparr>TOOLS_REGISTRY = [],
        sent = [JObj [(''jsonrpc'', JStr ''2.0''), (''id'', JInt 3),
                      (''error'', JObj [(''code'', JInt (- 32601)),
                                        (''message'', JStr ''Tool not found'')])]]\<rparr>"
  using unknown_tool_not_found
    [of "[(''id'', JInt 3), (''method'', JStr ''tools/call''),
          (''params'', JObj [(''name'', JStr ''no_such_tool'')])]"
        "[(''name'', JStr ''no_such_tool'')]" "''no_such_tool''"
        "\<lparr>TOOLS_REGISTRY = [], sent = []\<rparr>" "\<lambda>j. ''<json>''"]
  by (simp add: dict_get_def)

text \<open>
  Claim C6, as the claim states it, fails on an envelope that also carries the liveness
  marker: the registered handler, which would raise, is never called and no error
  response is sent.
\<close>

theorem handler_pong_counterexample:
  "handle_message (\<lambda>j. ''<json>'') \<lparr>TOOLS_REGISTRY = [(''t'', sample_tool)], sent = []\<rparr>
     (JObj [(''id'', JInt 1), (''method'', JStr ''tools/call''),
            (''params'', JObj [(''name'', JStr ''t'')]),
            (''result'', JStr ''pong'')]) =
   Inr \<lparr>TOOLS_REGISTRY = [(''t'', sample_tool)], sent = []\<rparr>
   \<and> func sample_tool [] = Inl (Exception ''missing argument'')"
  by (simp add: handle_message_def dict_get_def dict_get_default_def sample_tool_def)

text \<open>
  Claim C6, amended. For a \<^verbatim>\<open>tools/call\<close> envelope whose result field is not
  \<^verbatim>\<open>pong\<close> and whose params object names a registered tool, the two failure
  channels differ: a handler that raises yields an error response with code -32000 and
  the exception's message; a handler that returns an \<^verbatim>\<open>{error: ...}\<close> object
  yields a result response holding that object serialised as text, with no error field.
  In both cases one payload is sent and no exception reaches the receive loop.
\<close>

theorem handler_failure_channels:
  assumes "dict_get d ''method'' = JStr ''tools/call''"
    and "dict_get d ''result'' \<noteq> JStr ''pong''"
    and "map_of d ''params'' = Some (JObj p)"
    and "dict_get p ''name'' = JStr n"
    and "map_of (TOOLS_REGISTRY a) n = Some t"
    and "dict_get_default p ''arguments'' (JObj []) = JObj kwargs"
  shows "(func t kwargs = Inl e \<longrightarrow>
            handle_message dumps a (JObj d) =
              Inr (a\<lparr>sent := sent a @
                     [JObj [(''jsonrpc'', JStr ''2.0''), (''id'', dict_get d ''id''),
                            (''error'', JObj [(''code'', JInt (- 32000)),
                                              (''message'', JStr (str e))])]]\<rparr>))
       \<and> (func t kwargs = Inr (JObj [(''error'', JStr msg)]) \<longrightarrow>
            handle_message dumps a (JObj d) =
              Inr (a\<lparr>sent := sent a @
                     [JObj [(''jsonrpc'', JStr ''2.0''), (''id'', dict_get d ''id''),
                            (''result'',
                             JObj [(''content'',
                                    JArr [JObj [(''type'', JStr ''text''),
                                                (''text'', JStr (dumps (JObj [(''error'', JStr msg)])))]])])]]\<rparr>))"
proof -
  have params: "dict_get_default d ''params'' (JObj []) = JObj p"
    using assms(3) by (simp add: dict_get_default_def)
  have call: "call_func t (JObj kwargs) = func t kwargs"
    by (simp add: call_func_def)
  have branch: "tools_call dumps (TOOLS_REGISTRY a) (JObj p) =
      (case func t kwargs of
         Inr result \<Rightarrow>
           Inr [(''result'',
                 JObj [(''content'',
                        JArr [JObj [(''type'', JStr ''text''),
                                    (''text'', JStr (dumps result))]])])]
       | Inl e \<Rightarrow> Inr [(''error'', rpc_error (- 32000) (str e))])"
    using assms(4,5,6) call by (simp add: tools_call_def registry_get_def Let_def)
  show ?thesis
    using assms(1,2) params branch
    by (simp add: handle_message_def ws_send_def rpc_error_def Let_def)
qed

theorem handler_failure_channels_witness:
  "handle_message (\<lambda>j. ''<json>'') \<lparr>TOOLS_REGISTRY = [(''t'', sample_tool)], sent = []\<rparr>
     (JObj [(''id'', JInt 1), (''method'', JStr ''tools/call''),
            (''params'', JObj [(''name'', JStr ''t'')])]) =
   Inr \<lparr>TOOLS_REGISTRY = [(''t'', sample_tool)],
        sent = [JObj [(''jsonrpc'', JStr ''2.0''), (''id'', JInt 1),
                      (''error'', JObj [(''code'', JInt (- 32000)),
                                        (''message'', JStr ''missing argument'')])]]\<rparr>
   \<and> handle_message (\<lambda>j. ''<json>'') \<lparr>TOOLS_REGISTRY = [(''t'', sample_tool)], sent = []\<rparr>
     (JObj [(''id'', JInt 2), (''method'', JStr ''tools/call''),
            (''params'', JObj [(''name'', JStr ''t''), (''arguments'', JObj [(''q'', JNull)])])]) =
   Inr \<lparr>TOOLS_REGISTRY = [(''t'', sample_tool)],
        sent = [JObj [(''jsonrpc'', JStr ''2.0''), (''id'', JInt 2),
                      (''result'',
                       JObj [(''content'',
                              JArr [JObj [(''type'', JStr ''text''), (''text'', JStr ''<json>'')]])])]]\<rparr>"
  using
    handler_failure_channels
      [where d = "[(''id'', JInt 1), (''method'', JStr ''tools/call''),
            (''params'', JObj [(''name'', JStr ''t'')])]"
         and p = "[(''name'', JStr ''t'')]" and n = "''t''"
         and a = "\<lparr>TOOLS_REGISTRY = [(''t'', sample_tool)], sent = []\<rparr>"
         and t = sample_tool and kwargs = "[]" and e = "Exception ''missing argument''"
         and msg = "''Windows/Outlook required''" and dumps = "\<lambda>j. ''<json>''"]
    handler_failure_channels
      [where d = "[(''id'', JInt 2), (''method'', JStr ''tools/call''),
            (''params'', JObj [(''name'', JStr ''t''), (''arguments'', JObj [(''q'', JNull)])])]"
         and p = "[(''name'', JStr ''t''), (''arguments'', JObj [(''q'', JNull)])]"
         and n = "''t''"
         and a = "\<lparr>TOOLS_REGISTRY = [(''t'', sample_tool)], sent = []\<rparr>"
         and t = sample_tool and kwargs = "[(''q'', JNull)]"
         and e = "Exception ''missing argument''"
         and msg = "''Windows/Outlook required''" and dumps = "\<lambda>j. ''<json>''"]
  by (simp add: dict_get_def dict_get_default_def sample_tool_def)

section \<open>Properties of the reconnect loop\<close>

lemma agent_loop_running:
  "Interrupted \<notin> set script \<Longrightarrow> snd (agent_loop script) = Running"
  by (induction script rule: agent_loop.induct) (auto split: prod.splits)

lemma agent_loop_connects:
  "Interrupted \<notin> set script \<Longrightarrow>
     length (filter (\<lambda>a. a = Connect) (fst (agent_loop script))) = length script"
  by (induction script rule: agent_loop.induct) (auto split: prod.splits)

lemma agent_loop_sleeps:
  "Interrupted \<notin> set script \<Longrightarrow>
     filter (\<lambda>a. a \<noteq> Connect) (fst (agent_loop script)) =
       replicate (length (filter backs_off script)) (Sleep 5)"
  by (induction script rule: agent_loop.induct) (auto split: prod.splits)

lemma agent_loop_failures:
  "agent_loop (map Connect_failed es) =
     (concat (replicate (length es) [Connect, Sleep 5]), Running)"
  by (induction es) (auto split: prod.splits)

lemma agent_loop_append_failure:
  "Interrupted \<notin> set script \<Longrightarrow>
     fst (agent_loop (script @ [Connect_failed e])) = fst (agent_loop script) @ [Connect, Sleep 5]"
  by (induction script rule: agent_loop.induct) (auto split: prod.splits)

lemma agent_loop_append_raised:
  "Interrupted \<notin> set script \<Longrightarrow>
     fst (agent_loop (script @ [Session_raised e])) = fst (agent_loop script) @ [Connect, Sleep 5]"
  by (induction script rule: agent_loop.induct) (auto split: prod.splits)

text \<open>
  Claim C8, as the claim states it, fails: a session that ends with
  \<^verbatim>\<open>ConnectionClosed\<close> is followed at once by the next connection attempt, with no
  sleep in between.
\<close>

theorem no_backoff_after_close_counterexample:
  "agent_loop [Connection_closed, Stream_finished, Connection_closed] =
     ([Connect, Connect, Connect], Running)"
  by simp

text \<open>
  Claim C8, amended. Unless the process is shut down, the loop never stops: after any
  script of session endings it is still running and has made one connection attempt per
  ending. The only pauses are sleeps of 5 seconds, one for each ending in a failed
  connection attempt or in another exception escaping the session, taken directly after
  that attempt; a closed or finished connection is followed by no sleep. After N
  consecutive connection failures the loop has made exactly N attempts, each followed by
  one 5-second sleep.
\<close>

theorem reconnect_loop_backoff:
  "(Interrupted \<notin> set script \<longrightarrow>
      snd (agent_loop script) = Running
    \<and> length (filter (\<lambda>a. a = Connect) (fst (agent_loop script))) = length script
    \<and> filter (\<lambda>a. a \<noteq> Connect) (fst (agent_loop script)) =
        replicate (length (filter backs_off script)) (Sleep 5)
    \<and> fst (agent_loop (script @ [Connect_failed e])) = fst (agent_loop script) @ [Connect, Sleep 5]
    \<and> fst (agent_loop (script @ [Session_raised e])) = fst (agent_loop script) @ [Connect, Sleep 5])
   \<and> agent_loop (map Connect_failed es) =
       (concat (replicate (length es) [Connect, Sleep 5]), Running)"
  using agent_loop_running agent_loop_connects agent_loop_sleeps agent_loop_failures
    agent_loop_append_failure agent_loop_append_raised
  by blast

theorem reconnect_loop_backoff_witness:
  "snd (agent_loop [Connect_failed (Exception ''refused''), Connection_closed]) = Running
   \<and> length (filter (\<lambda>a. a = Connect)
        (fst (agent_loop [Connect_failed (Exception ''refused''), Connection_closed]))) = 2
   \<and> filter (\<lambda>a. a \<noteq> Connect)
        (fst (agent_loop [Connect_failed (Exception ''refused''), Connection_closed])) = [Sleep 5]"
  using reconnect_loop_backoff
    [of "[Connect_failed (Exception ''refused''), Connection_closed]"
        "Exception ''refused''" "[]"]
  by simp

section \<open>Properties of the inbox search\<close>

lemma search_loop_length:
  "search_loop items idx results = Inr out \<Longrightarrow>
     length out \<le> length results + length idx"
proof (induction idx arbitrary: results)
  case Nil
  then show ?case by simp
next
  case (Cons i rest)
  show ?case
  proof (cases "i \<ge> length items")
    case True
    with Cons.prems show ?thesis by simp
  next
    case False
    with Cons.prems obtain msg where
      "search_loop items rest (results @ [parse_email_summary msg]) = Inr out"
      by (auto split: sum.splits)
    from Cons.IH [OF this] show ?thesis by simp
  qed
qed

text \<open>
  Claim C10, as the claim states it, fails for a negative count: the search returns the
  empty list, whose length 0 is not at most \<open>min (-1) 20 = -1\<close>.
\<close>

theorem search_negative_count_counterexample:
  "tool_search_emails \<lparr>pythoncom = True, Restrict = (\<lambda>f. Inr [Inr Unreadable])\<rparr> ''invoice'' (- 1)
     = JArr []
   \<and> \<not> int (length ([] :: json list)) \<le> min (- 1) 20"
  by (simp add: tool_search_emails_def py_range_def)

text \<open>
  Claim C10, amended. Whenever the search returns a list, the list holds at most
  \<open>max 0 (min count 20)\<close> summaries: at most \<open>min count 20\<close> for a count that is not
  negative, none for a negative count, and never more than 20.
\<close>

theorem search_result_capped:
  assumes "tool_search_emails ol query count = JArr results"
  shows "int (length results) \<le> max 0 (min count 20) \<and> length results \<le> 20"
proof -
  from assms obtain items where
    run: "search_loop items (py_range (min count 20)) [] = Inr results"
    by (auto simp: tool_search_emails_def split: if_splits sum.splits)
  from search_loop_length [OF run]
  have "length results \<le> nat (min count 20)"
    by (simp add: py_range_def)
  then show ?thesis by auto
qed

theorem search_result_capped_witness:
  "tool_search_emails
     \<lparr>pythoncom = True, Restrict = (\<lambda>f. Inr (replicate 30 (Inr Unreadable)))\<rparr> ''invoice'' 2
     = JArr [JObj [(''subject'', JStr ''Error reading email item'')],
             JObj [(''subject'', JStr ''Error reading email item'')]]
   \<and> int (length [JObj [(''subject'', JStr ''Error reading email item'')],
                  JObj [(''subject'', JStr ''Error reading email item'')]]) \<le> max 0 (min 2 20)"
proof -
  have run: "tool_search_emails
     \<lparr>pythoncom = True, Restrict = (\<lambda>f. Inr (replicate 30 (Inr Unreadable)))\<rparr> ''invoice'' 2
     = JArr [JObj [(''subject'', JStr ''Error reading email item'')],
             JObj [(''subject'', JStr ''Error reading email item'')]]"
    by (simp add: tool_search_emails_def py_range_def parse_email_summary_def upt_rec)
  from search_result_capped [OF run] show ?thesis using run by simp
qed

section \<open>Properties of the streaming orchestrator\<close>

lemma truthy_value_of: "truthy x \<longleftrightarrow> value_of x \<noteq> []"
  by (cases x) auto

lemma grow_nat: "grow tcs (int i) = tcs @ replicate (Suc i - length tcs) placeholder"
proof (induction "Suc i - length tcs" arbitrary: tcs)
  case 0
  then show ?case by (simp add: grow.simps)
next
  case (Suc n)
  then have le: "length tcs \<le> i" and n: "n = Suc i - length (tcs @ [placeholder])" by auto
  have "grow tcs (int i) = grow (tcs @ [placeholder]) (int i)"
    using le by (subst grow.simps) simp
  also have "\<dots> = (tcs @ [placeholder]) @ replicate n placeholder"
    using Suc.hyps(1) [OF n] n by simp
  also have "\<dots> = tcs @ replicate (Suc n) placeholder" by simp
  finally show ?case using Suc.hyps(2) by simp
qed

lemma grow_length: "i < length (grow tcs (int i))"
  by (simp add: grow_nat)

lemma grow_idem: "i < length tcs \<Longrightarrow> grow tcs (int i) = tcs"
  by (simp add: grow_nat)

lemma set_item_nat: "i < length xs \<Longrightarrow> set_item xs (int i) f = Inr (xs[i := f (xs ! i)])"
  by (simp add: set_item_def Let_def)

lemma merge_fragment_nat:
  assumes "tcd_index tc = Some (int i)" and "tcd_function tc = Some f"
  shows "merge_fragment tcs tc =
           Inr ((grow tcs (int i))[i := absorb tc (grow tcs (int i) ! i)])"
proof -
  let ?g = "grow tcs (int i)"
  have len: "i < length ?g" by (rule grow_length)
  obtain t where t: "?g ! i = t" by simp
  have rec: "absorb tc t = (let t1 = (if truthy (tcd_id tc) then put_id (value_of (tcd_id tc)) t else t);
                   t2 = (if truthy (fd_name f) then put_name (value_of (fd_name f)) t1 else t1)
               in if truthy (fd_arguments f) then add_arguments (value_of (fd_arguments f)) t2 else t2)"
    using assms(2)
    by (simp add: absorb_def fragment_id_def fragment_name_def fragment_arguments_def
        truthy_value_of put_id_def put_name_def add_arguments_def Let_def)
  have same: "?g[i := t] = ?g"
    unfolding t [symmetric] by simp
  show ?thesis
    using assms len t same
    by (simp add: merge_fragment_def set_item_nat rec Let_def)
qed

lemma merge_fragments_nat:
  assumes "\<forall>tc \<in> set frs. tcd_index tc = Some (int i) \<and> tcd_function tc \<noteq> None"
    and "frs \<noteq> []"
  shows "merge_fragments tcs frs =
           Inr ((grow tcs (int i))[i := fold absorb frs (grow tcs (int i) ! i)])"
  using assms
proof (induction frs arbitrary: tcs)
  case Nil
  then show ?case by simp
next
  case (Cons tc rest)
  let ?g = "grow tcs (int i)"
  let ?t = "?g[i := absorb tc (?g ! i)]"
  from Cons.prems obtain f where f: "tcd_function tc = Some f" and ix: "tcd_index tc = Some (int i)"
    by auto
  have one: "merge_fragment tcs tc = Inr ?t"
    by (rule merge_fragment_nat [OF ix f])
  have len: "i < length ?g" by (rule grow_length)
  show ?case
  proof (cases "rest = []")
    case True
    then show ?thesis using one by simp
  next
    case False
    have "merge_fragments ?t rest =
            Inr ((grow ?t (int i))[i := fold absorb rest (grow ?t (int i) ! i)])"
      using Cons.IH [of ?t] Cons.prems False by simp
    moreover have "grow ?t (int i) = ?t" using len by (simp add: grow_idem)
    ultimately show ?thesis using one len by simp
  qed
qed

lemma last_nonempty_step:
  "last_nonempty (a # b # xs) = last_nonempty ((if b = [] then a else b) # xs)"
  by (simp add: last_nonempty_def split: list.splits)

lemma last_nonempty_single: "last_nonempty [a] = a"
  by (simp add: last_nonempty_def)

lemma last_nonempty_empty_head: "last_nonempty ([] # xs) = last_nonempty xs"
  by (simp add: last_nonempty_def)

lemma fold_absorb_fields:
  "tc_id (fold absorb frs t) = last_nonempty (tc_id t # map fragment_id frs) \<and>
   tc_type (fold absorb frs t) = tc_type t \<and>
   fn_name (tc_function (fold absorb frs t)) =
     last_nonempty (fn_name (tc_function t) # map fragment_name frs) \<and>
   fn_arguments (tc_function (fold absorb frs t)) =
     fn_arguments (tc_function t) @ concat (map fragment_arguments frs)"
proof (induction frs arbitrary: t)
  case Nil
  then show ?case by (simp add: last_nonempty_single)
next
  case (Cons tc rest)
  show ?case
    using Cons.IH [of "absorb tc t"]
    by (simp add: last_nonempty_step absorb_def)
qed

lemma fold_absorb_placeholder:
  "fold absorb frs placeholder =
     \<lparr>tc_id = last_nonempty (map fragment_id frs), tc_type = ''function'',
      tc_function = \<lparr>fn_name = last_nonempty (map fragment_name frs),
                     fn_arguments = concat (map fragment_arguments frs)\<rparr>\<rparr>"
proof -
  have "fn_name (tc_function placeholder) = [] \<and> tc_id placeholder = [] \<and>
        fn_arguments (tc_function placeholder) = [] \<and> tc_type placeholder = ''function''"
    by (simp add: placeholder_def)
  with fold_absorb_fields [of frs placeholder] show ?thesis
    by (simp add: last_nonempty_empty_head)
qed

lemma merge_fragments_append:
  "merge_fragments tcs xs = Inr t1 \<Longrightarrow> merge_fragments tcs (xs @ ys) = merge_fragments t1 ys"
  by (induction xs arbitrary: tcs) (auto split: sum.splits)

lemma merge_fragments_ok:
  assumes "\<forall>tc \<in> set frs. tcd_index tc = Some (int i) \<and> tcd_function tc \<noteq> None"
  shows "\<exists>t. merge_fragments tcs frs = Inr t"
proof (cases "frs = []")
  case True
  then show ?thesis by simp
next
  case False
  from merge_fragments_nat [OF assms False] show ?thesis by blast
qed

lemma process_chunk_fragments:
  assumes "choices c \<noteq> []"
    and "\<forall>tc \<in> set (chunk_fragments c). tcd_index tc = Some (int i) \<and> tcd_function tc \<noteq> None"
  shows "\<exists>fs st'. process_chunk st c = Inr (fs, st') \<and>
           merge_fragments (tool_calls st) (chunk_fragments c) = Inr (tool_calls st')"
proof -
  from assms(1) obtain d ds where c: "choices c = d # ds" by (cases "choices c") auto
  then have frs: "chunk_fragments c = value_of (delta_tool_calls d)"
    by (simp add: chunk_fragments_def)
  from merge_fragments_ok [OF assms(2)] obtain t where
    t: "merge_fragments (tool_calls st) (value_of (delta_tool_calls d)) = Inr t"
    using frs by auto
  show ?thesis
  proof (cases "truthy (delta_tool_calls d)")
    case True
    then show ?thesis using c frs t
      by (auto simp: process_chunk_def Let_def)
  next
    case False
    then have "value_of (delta_tool_calls d) = []" by (simp add: truthy_value_of)
    then show ?thesis using c frs False
      by (auto simp: process_chunk_def Let_def)
  qed
qed

lemma run_stream_fragments:
  assumes "\<forall>c \<in> set chunks. choices c \<noteq> []"
    and "\<forall>tc \<in> set (concat (map chunk_fragments chunks)).
           tcd_index tc = Some (int i) \<and> tcd_function tc \<noteq> None"
  shows "\<exists>fs st'. run_stream st chunks = (fs, Inr st') \<and>
           merge_fragments (tool_calls st) (concat (map chunk_fragments chunks)) = Inr (tool_calls st')"
  using assms
proof (induction chunks arbitrary: st)
  case Nil
  then show ?case by simp
next
  case (Cons c cs)
  have "choices c \<noteq> []" using Cons.prems by simp
  moreover have "\<forall>tc \<in> set (chunk_fragments c). tcd_index tc = Some (int i) \<and> tcd_function tc \<noteq> None"
    using Cons.prems by simp
  ultimately obtain fs1 st1 where
    one: "process_chunk st c = Inr (fs1, st1)" and
    m1: "merge_fragments (tool_calls st) (chunk_fragments c) = Inr (tool_calls st1)"
    using process_chunk_fragments by blast
  from Cons.IH [of st1] Cons.prems obtain gs st' where
    rest: "run_stream st1 cs = (gs, Inr st')" and
    m2: "merge_fragments (tool_calls st1) (concat (map chunk_fragments cs)) = Inr (tool_calls st')"
    by auto
  have "run_stream st (c # cs) = (fs1 @ gs, Inr st')" using one rest by simp
  moreover have "merge_fragments (tool_calls st) (concat (map chunk_fragments (c # cs))) = Inr (tool_calls st')"
    using merge_fragments_append [OF m1] m2 by simp
  ultimately show ?case by blast
qed

text \<open>
  Claim C3. When every tool-call fragment of a stream carries the same index \<open>i\<close>
  (a position, hence not negative) and a function object, the loop ends without an
  exception and the array has \<open>i + 1\<close> slots: slot \<open>i\<close> holds the concatenation of the
  fragments' argument strings in arrival order, the last non-empty id and the last
  non-empty name, and \<^verbatim>\<open>type = "function"\<close>; every slot below \<open>i\<close> is the empty
  placeholder with \<^verbatim>\<open>type = "function"\<close>.
\<close>

theorem fragments_reconstructed:
  assumes "\<forall>c \<in> set chunks. choices c \<noteq> []"
    and "\<forall>tc \<in> set (concat (map chunk_fragments chunks)).
           tcd_index tc = Some (int i) \<and> tcd_function tc \<noteq> None"
    and "concat (map chunk_fragments chunks) \<noteq> []"
  shows "\<exists>fs st. run_stream initial_state chunks = (fs, Inr st) \<and>
           length (tool_calls st) = Suc i \<and>
           tool_calls st ! i =
             \<lparr>tc_id = last_nonempty (map fragment_id (concat (map chunk_fragments chunks))),
              tc_type = ''function'',
              tc_function =
                \<lparr>fn_name = last_nonempty (map fragment_name (concat (map chunk_fragments chunks))),
                 fn_arguments = concat (map fragment_arguments (concat (map chunk_fragments chunks)))\<rparr>\<rparr> \<and>
           (\<forall>j < i. tool_calls st ! j = placeholder)"
proof -
  let ?frs = "concat (map chunk_fragments chunks)"
  from run_stream_fragments [OF assms(1,2), of initial_state] obtain fs st where
    run: "run_stream initial_state chunks = (fs, Inr st)" and
    m: "merge_fragments [] ?frs = Inr (tool_calls st)"
    by (auto simp: initial_state_def)
  obtain g where g: "g = grow [] (int i)" by simp
  have gl: "length g = Suc i" and gn: "\<forall>j \<le> i. g ! j = placeholder"
    unfolding g by (simp_all add: grow_nat del: replicate.simps)
  from merge_fragments_nat [OF assms(2,3), of "[]"] m
  have tcs: "tool_calls st = g[i := fold absorb ?frs placeholder]"
    using gn by (simp add: g [symmetric])
  have "length (tool_calls st) = Suc i" using tcs gl by simp
  moreover have "tool_calls st ! i = fold absorb ?frs placeholder" using tcs gl by simp
  moreover have "\<forall>j < i. tool_calls st ! j = placeholder" using tcs gl gn by simp
  ultimately show ?thesis using run by (simp add: fold_absorb_placeholder)
qed

lemma process_chunk_text:
  assumes "text_only c" and "\<not> is_tool_mode st"
  shows "process_chunk st c =
           (if chunk_text c \<noteq> [] \<and> 60 < length (text_buffer st @ chunk_text c)
            then Inr ([Content_frame (text_buffer st @ chunk_text c)], st\<lparr>text_buffer := ''''\<rparr>)
            else Inr ([], st\<lparr>text_buffer := text_buffer st @ chunk_text c\<rparr>))"
proof -
  from assms(1) obtain d ds where c: "choices c = d # ds" and nt: "\<not> truthy (delta_tool_calls d)"
    by (cases "choices c") (auto simp: text_only_def)
  have ct: "chunk_text c = value_of (delta_content d)" using c by (simp add: chunk_text_def)
  show ?thesis
    using c nt assms(2) ct
    by (auto simp: process_chunk_def Let_def truthy_value_of)
qed

lemma run_stream_text:
  assumes "\<forall>c \<in> set cs. text_only c" and "\<not> is_tool_mode st" and "length (text_buffer st) \<le> 60"
  shows "\<exists>ts st'. run_stream st cs = (map Content_frame ts, Inr st') \<and>
           (\<forall>t \<in> set ts. 60 < length t) \<and> length (text_buffer st') \<le> 60 \<and>
           concat ts @ text_buffer st' = text_buffer st @ concat (map chunk_text cs) \<and>
           tool_calls st' = tool_calls st \<and> \<not> is_tool_mode st'"
  using assms
proof (induction cs arbitrary: st)
  case Nil
  have "run_stream st [] = (map Content_frame [], Inr st)" by simp
  then show ?case using Nil.prems by fastforce
next
  case (Cons c cs)
  have tc: "text_only c" using Cons.prems by simp
  note pc = process_chunk_text [OF tc Cons.prems(2)]
  show ?case
  proof (cases "chunk_text c \<noteq> [] \<and> 60 < length (text_buffer st @ chunk_text c)")
    case True
    let ?st1 = "st\<lparr>text_buffer := ''''\<rparr>"
    have one: "process_chunk st c = Inr ([Content_frame (text_buffer st @ chunk_text c)], ?st1)"
      using pc True by simp
    from Cons.IH [of ?st1] Cons.prems obtain ts st' where
      r: "run_stream ?st1 cs = (map Content_frame ts, Inr st')" and
      p: "\<forall>t \<in> set ts. 60 < length t" "length (text_buffer st') \<le> 60"
         "concat ts @ text_buffer st' = concat (map chunk_text cs)"
         "tool_calls st' = tool_calls st" "\<not> is_tool_mode st'"
      by auto
    have "run_stream st (c # cs) = (map Content_frame ((text_buffer st @ chunk_text c) # ts), Inr st')"
      using one r by simp
    moreover have "\<forall>t \<in> set ((text_buffer st @ chunk_text c) # ts). 60 < length t"
      using p(1) True by simp
    moreover have "concat ((text_buffer st @ chunk_text c) # ts) @ text_buffer st' =
        text_buffer st @ concat (map chunk_text (c # cs))"
      using p(3) by simp
    ultimately show ?thesis using p(2,4,5) by blast
  next
    case False
    let ?st1 = "st\<lparr>text_buffer := text_buffer st @ chunk_text c\<rparr>"
    have one: "process_chunk st c = Inr ([], ?st1)"
      using pc False by auto
    have small: "length (text_buffer ?st1) \<le> 60"
      using False Cons.prems(3) by auto
    from Cons.IH [of ?st1] Cons.prems small obtain ts st' where
      r: "run_stream ?st1 cs = (map Content_frame ts, Inr st')" and
      p: "\<forall>t \<in> set ts. 60 < length t" "length (text_buffer st') \<le> 60"
         "concat ts @ text_buffer st' = (text_buffer st @ chunk_text c) @ concat (map chunk_text cs)"
         "tool_calls st' = tool_calls st" "\<not> is_tool_mode st'"
      by auto
    have "run_stream st (c # cs) = (map Content_frame ts, Inr st')"
      using one r by simp
    moreover have "concat ts @ text_buffer st' = text_buffer st @ concat (map chunk_text (c # cs))"
      using p(3) by simp
    ultimately show ?thesis using p(1,2,4,5) by blast
  qed
qed

lemma filter_content_frames: "filter is_content (map Content_frame ts) = map Content_frame ts"
  by (induction ts) auto

lemma filter_chunk_frames: "filter is_content (map Chunk_frame cs) = []"
  by (induction cs) auto

lemma run_tool_call_no_content:
  "filter is_content (fst (run_tool_call env m descs tc)) = []"
  by (auto simp: run_tool_call_def Let_def split: sum.splits prod.splits)

lemma run_tool_calls_no_content:
  "filter is_content (fst (run_tool_calls env m descs msgs tcs)) = []"
proof (induction tcs arbitrary: m msgs)
  case Nil
  then show ?case by simp
next
  case (Cons tc rest)
  obtain fs msg m1 where one: "run_tool_call env m descs tc = (fs, msg, m1)"
    by (cases "run_tool_call env m descs tc") auto
  obtain gs msgs' m2 where more: "run_tool_calls env m1 descs (msgs @ [msg]) rest = (gs, msgs', m2)"
    by (cases "run_tool_calls env m1 descs (msgs @ [msg]) rest") auto
  have "filter is_content fs = []" using run_tool_call_no_content [of env m descs tc] one by simp
  moreover have "filter is_content gs = []" using Cons.IH [of m1 "msgs @ [msg]"] more by simp
  ultimately show ?case using one more by simp
qed

lemma after_stream_no_content:
  assumes "text_buffer st = []"
  shows "filter is_content (fst (after_stream env m descs mdl msgs st)) = []"
proof (cases "tool_calls st = []")
  case True
  then show ?thesis using assms by (simp add: after_stream_def)
next
  case False
  let ?h = "msgs @ [\<lparr>h_role = ''assistant'', h_content = None, h_tool_call_id = None,
                     h_tool_calls = Some (tool_calls st)\<rparr>]"
  obtain tfs msgs' m' where r: "run_tool_calls env m descs ?h (tool_calls st) = (tfs, msgs', m')"
    by (cases "run_tool_calls env m descs ?h (tool_calls st)") auto
  have nc: "filter is_content tfs = []"
    using run_tool_calls_no_content [of env m descs ?h "tool_calls st"] r by simp
  show ?thesis
    using False assms r nc
    by (auto simp: after_stream_def filter_chunk_frames split: sum.splits prod.splits option.splits)
qed

lemma after_stream_text_only:
  assumes "tool_calls st = []"
  shows "after_stream env m descs mdl msgs st =
           ((if text_buffer st = [] then [] else [Content_frame (text_buffer st)]) @ [DONE], Inr ())"
  using assms by (simp add: after_stream_def)

text \<open>
  Claim C4. When the first stream consists of plain-text chunks only and ends normally,
  the generator yields text frames followed by the terminator: zero or more flushes of
  more than 60 characters and at most one trailing flush of the non-empty remainder (at
  most 60 characters); the concatenation of the frames' texts is the concatenation of the
  chunks' texts.
\<close>

theorem text_only_stream_relayed:
  assumes "open_stream env m request = Inr (m1, descs, msgs, (chunks, None))"
    and "\<forall>c \<in> set chunks. text_only c"
  shows "\<exists>ts rest. smart_stream_generator env m request =
            map Content_frame ts @ (if rest = [] then [] else [Content_frame rest]) @ [DONE]
          \<and> (\<forall>t \<in> set ts. 60 < length t) \<and> length rest \<le> 60
          \<and> concat ts @ rest = concat (map chunk_text chunks)"
proof -
  from run_stream_text [OF assms(2), of initial_state] obtain ts st where
    r: "run_stream initial_state chunks = (map Content_frame ts, Inr st)" and
    p: "\<forall>t \<in> set ts. 60 < length t" "length (text_buffer st) \<le> 60"
       "concat ts @ text_buffer st = concat (map chunk_text chunks)"
       "tool_calls st = []"
    by (auto simp: initial_state_def)
  have "smart_stream_generator env m request =
          map Content_frame ts @
          (if text_buffer st = [] then [] else [Content_frame (text_buffer st)]) @ [DONE]"
    using assms(1) r after_stream_text_only [OF p(4), of env m1 descs "model request" msgs]
    by (simp add: smart_stream_generator_def generator_body_def)
  with p show ?thesis by blast
qed

lemma process_chunk_tool:
  assumes "has_tool_calls c" and "process_chunk st c = Inr (fs, st')"
  shows "fs = [] \<and> is_tool_mode st' \<and>
         text_buffer st' = (if is_tool_mode st then text_buffer st else [])"
proof -
  from assms(1) obtain d ds where c: "choices c = d # ds" and t: "truthy (delta_tool_calls d)"
    by (cases "choices c") (auto simp: has_tool_calls_def)
  show ?thesis
    using assms(2) c t
    by (auto simp: process_chunk_def Let_def split: sum.splits if_splits)
qed

lemma process_chunk_tool_mode:
  assumes "is_tool_mode st" and "process_chunk st c = Inr (fs, st')"
  shows "fs = [] \<and> is_tool_mode st' \<and> text_buffer st' = text_buffer st"
  using assms
  by (auto simp: process_chunk_def Let_def split: sum.splits if_splits list.splits)

lemma run_stream_tool_mode:
  assumes "is_tool_mode st"
  shows "fst (run_stream st cs) = [] \<and>
         (\<forall>st'. snd (run_stream st cs) = Inr st' \<longrightarrow>
            is_tool_mode st' \<and> text_buffer st' = text_buffer st)"
  using assms
proof (induction cs arbitrary: st)
  case Nil
  then show ?case by simp
next
  case (Cons c cs)
  show ?case
  proof (cases "process_chunk st c")
    case (Inl e)
    then show ?thesis by simp
  next
    case (Inr p)
    obtain fs st1 where p: "p = (fs, st1)" by (cases p) auto
    from process_chunk_tool_mode [OF Cons.prems] Inr p
    have one: "fs = []" "is_tool_mode st1" "text_buffer st1 = text_buffer st" by auto
    from Cons.IH [OF one(2)] one(1,3) Inr p show ?thesis
      by (auto split: prod.splits)
  qed
qed

lemma run_stream_append:
  "run_stream st (xs @ ys) =
     (case run_stream st xs of
        (fs, Inl e) \<Rightarrow> (fs, Inl e)
      | (fs, Inr st') \<Rightarrow> (case run_stream st' ys of (gs, r) \<Rightarrow> (fs @ gs, r)))"
proof (induction xs arbitrary: st)
  case Nil
  then show ?case by (simp split: prod.splits)
next
  case (Cons x xs)
  show ?case
  proof (cases "process_chunk st x")
    case (Inl e)
    then show ?thesis by simp
  next
    case (Inr p)
    obtain fs st1 where p: "p = (fs, st1)" by (cases p) auto
    show ?thesis using Inr p Cons.IH [of st1]
      by (auto split: prod.splits sum.splits)
  qed
qed

lemma run_stream_until_tool_call:
  assumes "\<forall>p \<in> set pre. text_only p" and "has_tool_calls c"
  shows "fst (run_stream initial_state (pre @ c # post)) = fst (run_stream initial_state pre) \<and>
         (\<forall>st'. snd (run_stream initial_state (pre @ c # post)) = Inr st' \<longrightarrow> text_buffer st' = [])"
proof -
  from run_stream_text [OF assms(1), of initial_state] obtain ts st1 where
    r1: "run_stream initial_state pre = (map Content_frame ts, Inr st1)" and
    nt: "\<not> is_tool_mode st1"
    by (auto simp: initial_state_def)
  show ?thesis
  proof (cases "process_chunk st1 c")
    case (Inl e)
    then show ?thesis using r1 by (simp add: run_stream_append)
  next
    case (Inr p)
    obtain fs st2 where p: "p = (fs, st2)" by (cases p) auto
    from process_chunk_tool [OF assms(2)] Inr p nt
    have one: "fs = []" "is_tool_mode st2" "text_buffer st2 = []" by auto
    from run_stream_tool_mode [OF one(2), of post] one(3)
    have rest: "fst (run_stream st2 post) = []"
      "\<forall>st'. snd (run_stream st2 post) = Inr st' \<longrightarrow> text_buffer st' = []"
      by auto
    obtain gs r where rp: "run_stream st2 post = (gs, r)" by (cases "run_stream st2 post") auto
    have "run_stream initial_state (pre @ c # post) = (map Content_frame ts @ gs, r)"
      using r1 Inr p one(1) rp by (simp add: run_stream_append)
    then show ?thesis using r1 rest rp by simp
  qed
qed

lemma generator_content_frames:
  assumes "open_stream env m request = Inr (m1, descs, msgs, (chunks, ending))"
    and "\<forall>st'. snd (run_stream initial_state chunks) = Inr st' \<longrightarrow> text_buffer st' = []"
  shows "filter is_content (smart_stream_generator env m request) =
           filter is_content (fst (run_stream initial_state chunks))"
proof -
  obtain fs r where run: "run_stream initial_state chunks = (fs, r)"
    by (cases "run_stream initial_state chunks") auto
  show ?thesis
  proof (cases r)
    case (Inl e)
    then show ?thesis using assms(1) run
      by (simp add: smart_stream_generator_def generator_body_def)
  next
    case (Inr st)
    then have buf: "text_buffer st = []" using assms(2) run by simp
    show ?thesis
    proof (cases ending)
      case (Some e)
      then show ?thesis using assms(1) run Inr
        by (simp add: smart_stream_generator_def generator_body_def)
    next
      case None
      obtain gs r2 where a: "after_stream env m1 descs (model request) msgs st = (gs, r2)"
        by (cases "after_stream env m1 descs (model request) msgs st") auto
      have "filter is_content gs = []"
        using after_stream_no_content [OF buf, of env m1 descs "model request" msgs] a by simp
      then show ?thesis using assms(1) run Inr None a
        by (cases r2) (simp_all add: smart_stream_generator_def generator_body_def)
    qed
  qed
qed

text \<open>
  Claim C2, amended. When a tool-call delta follows plain-text deltas, the text frames of
  the whole response are exactly the over-threshold flushes (each of more than 60
  characters) made before that delta; the text buffered since the last flush, at most 60
  characters, is discarded and is in no text frame. In particular, when the text before
  the first tool-call delta has at most 60 characters in total, no text frame is
  emitted at all.
\<close>

theorem filler_suppressed_below_threshold:
  assumes "open_stream env m request = Inr (m1, descs, msgs, (pre @ c # post, ending))"
    and "\<forall>p \<in> set pre. text_only p" and "has_tool_calls c"
  shows "\<exists>ts buf. filter is_content (smart_stream_generator env m request) = map Content_frame ts
      \<and> fst (run_stream initial_state pre) = map Content_frame ts
      \<and> (\<forall>t \<in> set ts. 60 < length t) \<and> length buf \<le> 60
      \<and> concat ts @ buf = concat (map chunk_text pre)
      \<and> (length (concat (map chunk_text pre)) \<le> 60 \<longrightarrow> ts = [])"
proof -
  from run_stream_text [OF assms(2), of initial_state] obtain ts st1 where
    r1: "run_stream initial_state pre = (map Content_frame ts, Inr st1)" and
    p: "\<forall>t \<in> set ts. 60 < length t" "length (text_buffer st1) \<le> 60"
       "concat ts @ text_buffer st1 = concat (map chunk_text pre)"
    by (auto simp: initial_state_def)
  note u = run_stream_until_tool_call [OF assms(2,3), of post]
  have "filter is_content (smart_stream_generator env m request) =
          filter is_content (fst (run_stream initial_state (pre @ c # post)))"
    using generator_content_frames [OF assms(1)] u by blast
  then have out: "filter is_content (smart_stream_generator env m request) = map Content_frame ts"
    using u r1 by (simp add: filter_content_frames)
  have none: "length (concat (map chunk_text pre)) \<le> 60 \<longrightarrow> ts = []"
  proof
    assume small: "length (concat (map chunk_text pre)) \<le> 60"
    show "ts = []"
    proof (cases ts)
      case Nil
      then show ?thesis .
    next
      case (Cons t rest)
      then have "60 < length t" using p(1) by simp
      moreover have "length t \<le> length (concat ts @ text_buffer st1)" using Cons by simp
      ultimately show ?thesis using small p(3) by simp
    qed
  qed
  from out r1 p none show ?thesis by auto
qed

lemma generator_error_path:
  assumes "snd (generator_body env m request) = Inl e"
  shows "smart_stream_generator env m request =
           fst (generator_body env m request) @ [Error_frame (str e)]"
  using assms by (cases "generator_body env m request") (auto simp: smart_stream_generator_def)

lemma open_scripted:
  "open_stream (scripted outcome first second) () user_request =
     Inr ((), Map.empty, user_history, first)"
  by (simp add: open_stream_def scripted_def user_request_def user_history_def
      add_system_instruction_def to_history_def tool_descriptions_map_def)

text \<open>
  Claim C2, as the claim states it, fails: 61 characters of text before the first
  tool-call delta exceed the threshold, are flushed at once and reach the caller.
\<close>

theorem long_filler_emitted_counterexample:
  "smart_stream_generator
     (scripted (Inr ''ok'')
        ([text_chunk (replicate 61 CHR ''a''),
          tool_chunk [fragment 0 (Some ''call_1'') (Some ''read_calendar'') (Some ''{}'')]], None)
        ([], None))
     () user_request =
   [Content_frame (replicate 61 CHR ''a''),
    Tool_start ''read_calendar'' ''Executing enterprise utility function...'',
    Tool_end ''ok'', DONE]"
proof -
  have g: "grow [] 0 = [placeholder]"
    using grow_nat [of "[]" 0] by simp
  have m: "merge_fragment [] (fragment 0 (Some ''call_1'') (Some ''read_calendar'') (Some ''{}'')) =
      Inr [\<lparr>tc_id = ''call_1'', tc_type = ''function'',
            tc_function = \<lparr>fn_name = ''read_calendar'', fn_arguments = ''{}''\<rparr>\<rparr>]"
    by (simp add: merge_fragment_def fragment_def g set_item_def placeholder_def put_id_def
        put_name_def add_arguments_def)
  have r: "run_stream initial_state
       [text_chunk (replicate 61 CHR ''a''),
        tool_chunk [fragment 0 (Some ''call_1'') (Some ''read_calendar'') (Some ''{}'')]] =
     ([Content_frame (replicate 61 CHR ''a'')],
      Inr \<lparr>tool_calls = [\<lparr>tc_id = ''call_1'', tc_type = ''function'',
             tc_function = \<lparr>fn_name = ''read_calendar'', fn_arguments = ''{}''\<rparr>\<rparr>],
           text_buffer = '''', is_tool_mode = True\<rparr>)"
    by (simp add: initial_state_def process_chunk_def text_chunk_def tool_chunk_def m
        del: replicate.simps replicate_Suc)
  let ?E = "scripted (Inr ''ok'')
        ([text_chunk (replicate 61 CHR ''a''),
          tool_chunk [fragment 0 (Some ''call_1'') (Some ''read_calendar'') (Some ''{}'')]], None)
        ([], None)"
  have a: "after_stream ?E () Map.empty ''gpt'' user_history
       \<lparr>tool_calls = [\<lparr>tc_id = ''call_1'', tc_type = ''function'',
             tc_function = \<lparr>fn_name = ''read_calendar'', fn_arguments = ''{}''\<rparr>\<rparr>],
           text_buffer = '''', is_tool_mode = True\<rparr> =
     ([Tool_start ''read_calendar'' ''Executing enterprise utility function...'',
       Tool_end ''ok'', DONE], Inr ())"
    by (simp add: after_stream_def run_tool_call_def scripted_def tool_message_def)
  have u: "model user_request = ''gpt''" by (simp add: user_request_def)
  have "generator_body ?E () user_request =
      ([Content_frame (replicate 61 CHR ''a''),
        Tool_start ''read_calendar'' ''Executing enterprise utility function...'',
        Tool_end ''ok'', DONE], Inr ())"
    by (simp add: generator_body_def open_scripted r u a del: run_stream.simps)
  then show ?thesis
    unfolding smart_stream_generator_def by simp
qed

lemma run_tool_call_message:
  "run_tool_call env m descs tc = (fs, msg, m') \<Longrightarrow>
     h_role msg = ''tool'' \<and> h_tool_call_id msg = Some (tc_id tc)"
  by (auto simp: run_tool_call_def Let_def tool_message_def split: sum.splits prod.splits)

lemma run_tool_calls_history:
  "run_tool_calls env m descs msgs tcs = (fs, msgs', m') \<Longrightarrow>
     length msgs' = length msgs + length tcs \<and> take (length msgs) msgs' = msgs \<and>
     (\<forall>k < length tcs.
         h_role (msgs' ! (length msgs + k)) = ''tool'' \<and>
         h_tool_call_id (msgs' ! (length msgs + k)) = Some (tc_id (tcs ! k)) \<and>
         (\<exists>mk fk mk'. run_tool_call env mk descs (tcs ! k) = (fk, msgs' ! (length msgs + k), mk')))"
proof (induction tcs arbitrary: m msgs fs msgs' m')
  case Nil
  then show ?case by simp
next
  case (Cons tc rest)
  obtain f1 msg m1 where one: "run_tool_call env m descs tc = (f1, msg, m1)"
    by (cases "run_tool_call env m descs tc") auto
  obtain gs where rest: "run_tool_calls env m1 descs (msgs @ [msg]) rest = (gs, msgs', m')"
    using Cons.prems one by (auto split: prod.splits)
  note ih = Cons.IH [OF rest]
  note hd = run_tool_call_message [OF one]
  have len: "length msgs' = length msgs + length (tc # rest)" using ih by simp
  have tk: "take (length msgs) msgs' = msgs"
  proof -
    have "take (length msgs) (take (length (msgs @ [msg])) msgs') = take (length msgs) (msgs @ [msg])"
      using ih by simp
    then show ?thesis by (simp add: min_def)
  qed
  have at0: "msgs' ! length msgs = msg"
  proof -
    have "take (length (msgs @ [msg])) msgs' ! length msgs = (msgs @ [msg]) ! length msgs"
      using ih by simp
    then show ?thesis by simp
  qed
  have "\<forall>k < length (tc # rest).
         h_role (msgs' ! (length msgs + k)) = ''tool'' \<and>
         h_tool_call_id (msgs' ! (length msgs + k)) = Some (tc_id ((tc # rest) ! k)) \<and>
         (\<exists>mk fk mk'. run_tool_call env mk descs ((tc # rest) ! k) =
                         (fk, msgs' ! (length msgs + k), mk'))"
  proof (intro allI impI)
    fix k assume k: "k < length (tc # rest)"
    show "h_role (msgs' ! (length msgs + k)) = ''tool'' \<and>
         h_tool_call_id (msgs' ! (length msgs + k)) = Some (tc_id ((tc # rest) ! k)) \<and>
         (\<exists>mk fk mk'. run_tool_call env mk descs ((tc # rest) ! k) =
                         (fk, msgs' ! (length msgs + k), mk'))"
    proof (cases k)
      case 0
      then show ?thesis using at0 hd one by auto
    next
      case (Suc j)
      then have "j < length rest" using k by simp
      with ih have "h_role (msgs' ! (length (msgs @ [msg]) + j)) = ''tool'' \<and>
         h_tool_call_id (msgs' ! (length (msgs @ [msg]) + j)) = Some (tc_id (rest ! j)) \<and>
         (\<exists>mk fk mk'. run_tool_call env mk descs (rest ! j) =
                         (fk, msgs' ! (length (msgs @ [msg]) + j), mk'))"
        by blast
      then show ?thesis using Suc by simp
    qed
  qed
  with len tk show ?case by blast
qed

text \<open>
  Claim C7. Each pass of the tool loop yields the start frame and then either the result
  frame or an error frame, and returns one tool message with the call's id: with the
  text \<^verbatim>\<open>Error: ...\<close> when parsing the arguments fails or the execution raises,
  with the result otherwise. Over the whole array the history grows by exactly one tool
  message per call, in array order, each being the message of that call's pass.
\<close>

theorem every_tool_call_accounted:
  "(json_loads env (fn_arguments (tc_function tc)) = Inl e \<longrightarrow>
      run_tool_call env m descs tc =
        ([Tool_start (fn_name (tc_function tc))
            (case descs (fn_name (tc_function tc)) of
               None \<Rightarrow> ''Executing enterprise utility function...'' | Some d \<Rightarrow> d),
          Error_frame (str e)],
         tool_message (tc_id tc) (''Error: '' @ str e), m))
   \<and> (json_loads env (fn_arguments (tc_function tc)) = Inr args \<and>
      execute_tool env m (fn_name (tc_function tc)) args = (Inl e, m1) \<longrightarrow>
      run_tool_call env m descs tc =
        ([Tool_start (fn_name (tc_function tc))
            (case descs (fn_name (tc_function tc)) of
               None \<Rightarrow> ''Executing enterprise utility function...'' | Some d \<Rightarrow> d),
          Error_frame (str e)],
         tool_message (tc_id tc) (''Error: '' @ str e), m1))
   \<and> (json_loads env (fn_arguments (tc_function tc)) = Inr args \<and>
      execute_tool env m (fn_name (tc_function tc)) args = (Inr result, m1) \<longrightarrow>
      run_tool_call env m descs tc =
        ([Tool_start (fn_name (tc_function tc))
            (case descs (fn_name (tc_function tc)) of
               None \<Rightarrow> ''Executing enterprise utility function...'' | Some d \<Rightarrow> d),
          Tool_end result],
         tool_message (tc_id tc) result, m1))
   \<and> (run_tool_calls env m descs msgs tcs = (fs, msgs', m') \<longrightarrow>
      length msgs' = length msgs + length tcs \<and> take (length msgs) msgs' = msgs \<and>
      (\<forall>k < length tcs.
         h_role (msgs' ! (length msgs + k)) = ''tool'' \<and>
         h_tool_call_id (msgs' ! (length msgs + k)) = Some (tc_id (tcs ! k)) \<and>
         (\<exists>mk fk mk'. run_tool_call env mk descs (tcs ! k) =
                         (fk, msgs' ! (length msgs + k), mk'))))"
proof -
  have a: "json_loads env (fn_arguments (tc_function tc)) = Inl e \<longrightarrow>
      run_tool_call env m descs tc =
        ([Tool_start (fn_name (tc_function tc))
            (case descs (fn_name (tc_function tc)) of
               None \<Rightarrow> ''Executing enterprise utility function...'' | Some d \<Rightarrow> d),
          Error_frame (str e)],
         tool_message (tc_id tc) (''Error: '' @ str e), m)"
    by (simp add: run_tool_call_def Let_def)
  have b: "json_loads env (fn_arguments (tc_function tc)) = Inr args \<and>
      execute_tool env m (fn_name (tc_function tc)) args = (Inl e, m1) \<longrightarrow>
      run_tool_call env m descs tc =
        ([Tool_start (fn_name (tc_function tc))
            (case descs (fn_name (tc_function tc)) of
               None \<Rightarrow> ''Executing enterprise utility function...'' | Some d \<Rightarrow> d),
          Error_frame (str e)],
         tool_message (tc_id tc) (''Error: '' @ str e), m1)"
    by (simp add: run_tool_call_def Let_def)
  have c: "json_loads env (fn_arguments (tc_function tc)) = Inr args \<and>
      execute_tool env m (fn_name (tc_function tc)) args = (Inr result, m1) \<longrightarrow>
      run_tool_call env m descs tc =
        ([Tool_start (fn_name (tc_function tc))
            (case descs (fn_name (tc_function tc)) of
               None \<Rightarrow> ''Executing enterprise utility function...'' | Some d \<Rightarrow> d),
          Tool_end result],
         tool_message (tc_id tc) result, m1)"
    by (simp add: run_tool_call_def Let_def)
  from a b c run_tool_calls_history [of env m descs msgs tcs fs msgs' m'] show ?thesis
    by blast
qed

theorem every_tool_call_accounted_witness:
  "run_tool_call (scripted (Inr ''ok'') ([], None) ([], None)) () Map.empty bad_call =
     ([Tool_start ''read_calendar'' ''Executing enterprise utility function...'',
       Error_frame ''Expecting value''],
      tool_message ''call_2'' ''Error: Expecting value'', ())
   \<and> run_tool_call (scripted (Inl (Exception ''Tool not found'')) ([], None) ([], None)) ()
       Map.empty good_call =
     ([Tool_start ''read_calendar'' ''Executing enterprise utility function...'',
       Error_frame ''Tool not found''],
      tool_message ''call_1'' ''Error: Tool not found'', ())
   \<and> run_tool_call (scripted (Inr ''ok'') ([], None) ([], None)) () Map.empty good_call =
     ([Tool_start ''read_calendar'' ''Executing enterprise utility function...'',
       Tool_end ''ok''],
      tool_message ''call_1'' ''ok'', ())
   \<and> length (fst (snd (run_tool_calls (scripted (Inr ''ok'') ([], None) ([], None)) () Map.empty []
        [good_call, bad_call]))) = 2"
proof -
  let ?E = "scripted (Inr ''ok'') ([], None) ([], None)"
  let ?F = "scripted (Inl (Exception ''Tool not found'')) ([], None) ([], None)"
  have parse: "json_loads ?E (fn_arguments (tc_function bad_call)) = Inl (Exception ''Expecting value'')"
    by (simp add: scripted_def bad_call_def)
  have run: "run_tool_calls ?E () Map.empty [] [good_call, bad_call] =
      ([Tool_start ''read_calendar'' ''Executing enterprise utility function...'', Tool_end ''ok'',
        Tool_start ''read_calendar'' ''Executing enterprise utility function...'',
        Error_frame ''Expecting value''],
       [tool_message ''call_1'' ''ok'', tool_message ''call_2'' ''Error: Expecting value''], ())"
    by (simp add: run_tool_call_def scripted_def good_call_def bad_call_def)
  have raised: "json_loads ?F (fn_arguments (tc_function good_call)) = Inr (JObj []) \<and>
      execute_tool ?F () (fn_name (tc_function good_call)) (JObj []) =
        (Inl (Exception ''Tool not found''), ())"
    by (simp add: scripted_def good_call_def)
  have returned: "json_loads ?E (fn_arguments (tc_function good_call)) = Inr (JObj []) \<and>
      execute_tool ?E () (fn_name (tc_function good_call)) (JObj []) = (Inr ''ok'', ())"
    by (simp add: scripted_def good_call_def)
  from every_tool_call_accounted
    [where env = ?E and tc = bad_call and e = "Exception ''Expecting value''" and m = "()"
       and descs = Map.empty and msgs = "[]" and tcs = "[good_call, bad_call]"
       and fs = "[Tool_start ''read_calendar'' ''Executing enterprise utility function...'', Tool_end ''ok'',
        Tool_start ''read_calendar'' ''Executing enterprise utility function...'',
        Error_frame ''Expecting value'']"
       and msgs' = "[tool_message ''call_1'' ''ok'', tool_message ''call_2'' ''Error: Expecting value'']"
       and m' = "()"]
    parse run
  have first: "run_tool_call ?E () Map.empty bad_call =
     ([Tool_start ''read_calendar'' ''Executing enterprise utility function...'',
       Error_frame ''Expecting value''],
      tool_message ''call_2'' ''Error: Expecting value'', ())
    \<and> length (fst (snd (run_tool_calls ?E () Map.empty [] [good_call, bad_call]))) = 2"
    by (simp add: bad_call_def)
  from every_tool_call_accounted
    [where env = ?F and tc = good_call and e = "Exception ''Tool not found''" and m = "()"
       and args = "JObj []" and ?m1.0 = "()" and descs = Map.empty]
    raised
  have second: "run_tool_call ?F () Map.empty good_call =
     ([Tool_start ''read_calendar'' ''Executing enterprise utility function...'',
       Error_frame ''Tool not found''],
      tool_message ''call_1'' ''Error: Tool not found'', ())"
    by (simp add: good_call_def)
  from every_tool_call_accounted
    [where env = ?E and tc = good_call and result = "''ok''" and m = "()"
       and args = "JObj []" and ?m1.0 = "()" and descs = Map.empty]
    returned
  have third: "run_tool_call ?E () Map.empty good_call =
     ([Tool_start ''read_calendar'' ''Executing enterprise utility function...'',
       Tool_end ''ok''],
      tool_message ''call_1'' ''ok'', ())"
    by (simp add: good_call_def)
  from first second third show ?thesis by simp
qed

theorem fragments_reconstructed_witness:
  "\<exists>fs st. run_stream initial_state
       [tool_chunk [fragment 1 (Some ''call_9'') (Some ''read_calendar'') (Some ''{'')],
        tool_chunk [fragment 1 None None (Some ''}'')]] = (fs, Inr st)
     \<and> length (tool_calls st) = 2
     \<and> tool_calls st ! 1 =
         \<lparr>tc_id = ''call_9'', tc_type = ''function'',
          tc_function = \<lparr>fn_name = ''read_calendar'', fn_arguments = ''{}''\<rparr>\<rparr>
     \<and> tool_calls st ! 0 = placeholder"
proof -
  let ?cs = "[tool_chunk [fragment 1 (Some ''call_9'') (Some ''read_calendar'') (Some ''{'')],
              tool_chunk [fragment 1 None None (Some ''}'')]]"
  have frs: "concat (map chunk_fragments ?cs) =
      [fragment 1 (Some ''call_9'') (Some ''read_calendar'') (Some ''{''),
       fragment 1 None None (Some ''}'')]"
    by (simp add: chunk_fragments_def tool_chunk_def)
  have h1: "\<forall>c \<in> set ?cs. choices c \<noteq> []" by (simp add: tool_chunk_def)
  have h2: "\<forall>tc \<in> set (concat (map chunk_fragments ?cs)).
      tcd_index tc = Some (int 1) \<and> tcd_function tc \<noteq> None"
    unfolding frs by (simp add: fragment_def)
  have h3: "concat (map chunk_fragments ?cs) \<noteq> []" unfolding frs by simp
  from fragments_reconstructed [OF h1 h2 h3] show ?thesis
    unfolding frs
    by (simp add: fragment_id_def fragment_name_def fragment_arguments_def fragment_def
        last_nonempty_def numeral_2_eq_2 del: run_stream.simps)
qed

theorem text_only_stream_relayed_witness:
  "\<exists>ts rest. smart_stream_generator
       (scripted (Inr ''ok'') ([text_chunk ''Hello'', text_chunk '', world''], None) ([], None))
       () user_request =
         map Content_frame ts @ (if rest = [] then [] else [Content_frame rest]) @ [DONE]
     \<and> (\<forall>t \<in> set ts. 60 < length t) \<and> length rest \<le> 60
     \<and> concat ts @ rest = ''Hello, world''"
proof -
  have h1: "open_stream
       (scripted (Inr ''ok'') ([text_chunk ''Hello'', text_chunk '', world''], None) ([], None))
       () user_request =
     Inr ((), Map.empty, user_history, ([text_chunk ''Hello'', text_chunk '', world''], None))"
    by (rule open_scripted)
  have h2: "\<forall>c \<in> set [text_chunk ''Hello'', text_chunk '', world'']. text_only c"
    by (simp add: text_only_def text_chunk_def)
  from text_only_stream_relayed [OF h1 h2] show ?thesis
    by (simp add: chunk_text_def text_chunk_def)
qed

theorem filler_suppressed_below_threshold_witness:
  "filter is_content
     (smart_stream_generator
        (scripted (Inr ''ok'')
           ([text_chunk ''Let me check that.'',
             tool_chunk [fragment 0 (Some ''call_1'') (Some ''read_calendar'') (Some ''{}'')]], None)
           ([], None))
        () user_request) = []"
proof -
  have h1: "open_stream
       (scripted (Inr ''ok'')
           ([text_chunk ''Let me check that.'',
             tool_chunk [fragment 0 (Some ''call_1'') (Some ''read_calendar'') (Some ''{}'')]], None)
           ([], None))
       () user_request =
     Inr ((), Map.empty, user_history,
          ([text_chunk ''Let me check that.''] @
           tool_chunk [fragment 0 (Some ''call_1'') (Some ''read_calendar'') (Some ''{}'')] # [],
           None))"
    by (simp add: open_scripted)
  have h2: "\<forall>p \<in> set [text_chunk ''Let me check that.'']. text_only p"
    by (simp add: text_only_def text_chunk_def)
  have h3: "has_tool_calls
      (tool_chunk [fragment 0 (Some ''call_1'') (Some ''read_calendar'') (Some ''{}'')])"
    by (simp add: has_tool_calls_def tool_chunk_def)
  from filler_suppressed_below_threshold [OF h1 h2 h3] show ?thesis
    by (auto simp: chunk_text_def text_chunk_def)
qed

text \<open>
  The terminator is yielded by the last statement of the \<^verbatim>\<open>try\<close> block only:
  when the block raises, the generator ends with the error frame (see
  \<open>generator_error_path\<close>); when it does not, the frames are those of the block.
\<close>

lemma generator_success_path:
  assumes "snd (generator_body env m request) = Inr u"
  shows "smart_stream_generator env m request = fst (generator_body env m request)"
  using assms by (cases "generator_body env m request") (auto simp: smart_stream_generator_def)

text \<open>
  Claim C1 at two failing inputs: a request whose system message has no content, and an
  upstream stream that breaks before its first chunk. In both the only frame is the error
  frame; no terminator follows.
\<close>

theorem error_path_omits_terminator:
  "smart_stream_generator (scripted (Inr ''ok'') ([], None) ([], None)) ()
     \<lparr>model = ''gpt'', messages = [\<lparr>role = ''system'', content = None, tool_call_id = None\<rparr>]\<rparr>
     = [Error_frame ''unsupported operand type(s) for +=: NoneType and str'']
   \<and> smart_stream_generator
       (scripted (Inr ''ok'') ([], Some (Exception ''Connection error.'')) ([], None)) () user_request
     = [Error_frame ''Connection error.'']"
  by (simp add: smart_stream_generator_def generator_body_def open_stream_def scripted_def
      add_system_instruction_def to_history_def user_request_def)

end
